theory Spec2Isabelle
  imports Complex_Main
begin

section \<open>JavaScript numbers\<close>

text \<open>
  The simulator computes on JavaScript numbers. They are modelled as the real numbers
  extended by the three non-finite values of IEEE 754: finite values are exact reals
  (rounding, overflow of finite operands and the sign of zero are not modelled), and
  \<open>Infinity\<close>, \<open>-Infinity\<close> and \<open>NaN\<close> follow the IEEE rules the code relies
  on (\<open>isFinite\<close>, \<open>Math.max\<close>/\<open>Math.min\<close> returning \<open>NaN\<close> on a
  \<open>NaN\<close> argument, comparisons with \<open>NaN\<close> being false).
\<close>

datatype jsnum = Fin real | PInf | NInf | NaN

fun isFinite :: "jsnum \<Rightarrow> bool" where
  "isFinite (Fin x) = True"
| "isFinite PInf = False"
| "isFinite NInf = False"
| "isFinite NaN = False"

fun js_neg :: "jsnum \<Rightarrow> jsnum" where
  "js_neg (Fin x) = Fin (- x)"
| "js_neg PInf = NInf"
| "js_neg NInf = PInf"
| "js_neg NaN = NaN"

fun js_add :: "jsnum \<Rightarrow> jsnum \<Rightarrow> jsnum" where
  "js_add (Fin x) (Fin y) = Fin (x + y)"
| "js_add (Fin x) PInf = PInf"
| "js_add (Fin x) NInf = NInf"
| "js_add PInf (Fin y) = PInf"
| "js_add PInf PInf = PInf"
| "js_add PInf NInf = NaN"
| "js_add NInf (Fin y) = NInf"
| "js_add NInf NInf = NInf"
| "js_add NInf PInf = NaN"
| "js_add NaN b = NaN"
| "js_add a NaN = NaN"

definition js_sub :: "jsnum \<Rightarrow> jsnum \<Rightarrow> jsnum" where
  "js_sub a b = js_add a (js_neg b)"

text \<open>The sign of an infinite product: \<open>Infinity * 0\<close> is \<open>NaN\<close>.\<close>

definition inf_times :: "bool \<Rightarrow> real \<Rightarrow> jsnum" where
  "inf_times positive x =
     (if x = 0 then NaN else if (0 < x) = positive then PInf else NInf)"

fun js_mul :: "jsnum \<Rightarrow> jsnum \<Rightarrow> jsnum" where
  "js_mul (Fin x) (Fin y) = Fin (x * y)"
| "js_mul (Fin x) PInf = inf_times True x"
| "js_mul (Fin x) NInf = inf_times False x"
| "js_mul PInf (Fin y) = inf_times True y"
| "js_mul NInf (Fin y) = inf_times False y"
| "js_mul PInf PInf = PInf"
| "js_mul PInf NInf = NInf"
| "js_mul NInf PInf = NInf"
| "js_mul NInf NInf = PInf"
| "js_mul NaN b = NaN"
| "js_mul a NaN = NaN"

text \<open>
  Division. A finite non-zero number divided by zero is an infinity of the dividend's
  sign (the divisors that reach zero in this program are positive zeros), \<open>0/0\<close> and
  \<open>Infinity/Infinity\<close> are \<open>NaN\<close>, and a finite number divided by an infinity is zero.
\<close>

fun js_div :: "jsnum \<Rightarrow> jsnum \<Rightarrow> jsnum" where
  "js_div (Fin x) (Fin y) =
     (if y = 0 then (if x = 0 then NaN else if 0 < x then PInf else NInf) else Fin (x / y))"
| "js_div (Fin x) PInf = Fin 0"
| "js_div (Fin x) NInf = Fin 0"
| "js_div PInf (Fin y) = (if 0 \<le> y then PInf else NInf)"
| "js_div NInf (Fin y) = (if 0 \<le> y then NInf else PInf)"
| "js_div PInf PInf = NaN"
| "js_div PInf NInf = NaN"
| "js_div NInf PInf = NaN"
| "js_div NInf NInf = NaN"
| "js_div NaN b = NaN"
| "js_div a NaN = NaN"

text \<open>\<open>a > b\<close> and \<open>a >= b\<close>: false as soon as one side is \<open>NaN\<close>.\<close>

fun js_gt :: "jsnum \<Rightarrow> jsnum \<Rightarrow> bool" where
  "js_gt (Fin x) (Fin y) = (y < x)"
| "js_gt (Fin x) PInf = False"
| "js_gt (Fin x) NInf = True"
| "js_gt PInf (Fin y) = True"
| "js_gt PInf PInf = False"
| "js_gt PInf NInf = True"
| "js_gt NInf b = False"
| "js_gt NaN b = False"
| "js_gt a NaN = False"

fun js_ge :: "jsnum \<Rightarrow> jsnum \<Rightarrow> bool" where
  "js_ge (Fin x) (Fin y) = (y \<le> x)"
| "js_ge (Fin x) PInf = False"
| "js_ge (Fin x) NInf = True"
| "js_ge PInf (Fin y) = True"
| "js_ge PInf PInf = True"
| "js_ge PInf NInf = True"
| "js_ge NInf (Fin y) = False"
| "js_ge NInf PInf = False"
| "js_ge NInf NInf = True"
| "js_ge NaN b = False"
| "js_ge a NaN = False"

definition js_lt :: "jsnum \<Rightarrow> jsnum \<Rightarrow> bool" where
  "js_lt a b = js_gt b a"

text \<open>\<open>Math.max\<close> and \<open>Math.min\<close> of two arguments.\<close>

definition js_max :: "jsnum \<Rightarrow> jsnum \<Rightarrow> jsnum" where
  "js_max a b = (if a = NaN \<or> b = NaN then NaN else if js_gt b a then b else a)"

definition js_min :: "jsnum \<Rightarrow> jsnum \<Rightarrow> jsnum" where
  "js_min a b = (if a = NaN \<or> b = NaN then NaN else if js_gt a b then b else a)"

fun js_exp :: "jsnum \<Rightarrow> jsnum" where
  "js_exp (Fin x) = Fin (exp x)"
| "js_exp PInf = PInf"
| "js_exp NInf = Fin 0"
| "js_exp NaN = NaN"

fun js_tanh :: "jsnum \<Rightarrow> jsnum" where
  "js_tanh (Fin x) = Fin (tanh x)"
| "js_tanh PInf = Fin 1"
| "js_tanh NInf = Fin (- 1)"
| "js_tanh NaN = NaN"

text \<open>
  Reading a number out of an array: an index past the end gives \<open>undefined\<close>, which every
  arithmetic operation of this program turns into \<open>NaN\<close> (and \<open>isFinite\<close> rejects).
  Writing at an index past the end extends the array, the holes reading as
  \<open>undefined\<close> again.
\<close>

definition num_at :: "jsnum list \<Rightarrow> nat \<Rightarrow> jsnum" where
  "num_at xs i = (if i < length xs then xs ! i else NaN)"

definition num_set :: "jsnum list \<Rightarrow> nat \<Rightarrow> jsnum \<Rightarrow> jsnum list" where
  "num_set xs i v =
     (if i < length xs then xs[i := v] else xs @ replicate (i - length xs) NaN @ [v])"

section \<open>Activation registry\<close>

datatype ActivationKey = SIGMOID | TANH | RELU | LEAKY_RELU | ELU

text \<open>\<open>ACTIVATION_FUNCTIONS[key].func\<close>, applied to the raw input.\<close>

fun act_func :: "ActivationKey \<Rightarrow> jsnum \<Rightarrow> jsnum" where
  "act_func SIGMOID x = js_div (Fin 1) (js_add (Fin 1) (js_exp (js_neg x)))"
| "act_func TANH x = js_tanh x"
| "act_func RELU x = js_max (Fin 0) x"
| "act_func LEAKY_RELU x = js_max (js_mul (Fin (1 / 100)) x) x"
| "act_func ELU x =
     (if js_ge x (Fin 0) then x else js_mul (Fin 1) (js_sub (js_exp x) (Fin 1)))"

text \<open>\<open>ACTIVATION_FUNCTIONS[key].deriv\<close>, applied to the output of \<open>func\<close>.\<close>

fun act_deriv :: "ActivationKey \<Rightarrow> jsnum \<Rightarrow> jsnum" where
  "act_deriv SIGMOID y = js_mul y (js_sub (Fin 1) y)"
| "act_deriv TANH y = js_sub (Fin 1) (js_mul y y)"
| "act_deriv RELU y = (if js_gt y (Fin 0) then Fin 1 else Fin (5 / 100))"
| "act_deriv LEAKY_RELU y = (if js_gt y (Fin 0) then Fin 1 else Fin (1 / 100))"
| "act_deriv ELU y = (if js_gt y (Fin 0) then Fin 1 else js_add y (Fin 1))"

text \<open>\<open>Object.keys(ACTIVATION_FUNCTIONS)\<close>: the keys in insertion order.\<close>

definition ACTIVATION_KEYS :: "ActivationKey list" where
  "ACTIVATION_KEYS = [SIGMOID, TANH, RELU, LEAKY_RELU, ELU]"

section \<open>The network\<close>

text \<open>
  The fields of class \<open>SimpleNetwork\<close>. Layer sizes are natural numbers: the constructor
  rejects every other size when it allocates the per-layer arrays. The field
  \<open>values\<close> of the source is \<open>values'\<close> here.
\<close>

record SimpleNetwork =
  layerSizes :: "nat list"
  activations :: "ActivationKey list"
  weights :: "jsnum list list list"
  weightDeltas :: "jsnum list list list"
  biases :: "jsnum list list"
  values' :: "jsnum list list"
  preActivations :: "jsnum list list"

datatype js_error = TypeError | RangeError

text \<open>
  \<open>setLayerBias(layerIdx, value)\<close>, for an integer layer index:
  \<open>Array.prototype.fill\<close> overwrites every entry of the layer's bias vector.
\<close>

definition setLayerBias :: "SimpleNetwork \<Rightarrow> int \<Rightarrow> jsnum \<Rightarrow> SimpleNetwork" where
  "setLayerBias net layerIdx v =
     (let biasIdx = layerIdx - 1 in
      if 0 \<le> biasIdx \<and> biasIdx < int (length (biases net))
      then net\<lparr>biases := (biases net)[nat biasIdx :=
                 replicate (length (biases net ! nat biasIdx)) v]\<rparr>
      else net)"

definition setActivations :: "SimpleNetwork \<Rightarrow> ActivationKey list \<Rightarrow> SimpleNetwork" where
  "setActivations net newActivations = net\<lparr>activations := newActivations\<rparr>"

subsection \<open>Loops and array writes\<close>

text \<open>
  A counted loop \<open>for (let k = 0; k < n; k++) body\<close> whose bound does not change while it
  runs is \<open>foldE body [0..<n]\<close>: the body maps the loop's state to a new state or
  to the exception it throws, and an exception ends the loop.
\<close>

fun foldE :: "('a \<Rightarrow> 's \<Rightarrow> js_error + 's) \<Rightarrow> 'a list \<Rightarrow> 's \<Rightarrow> js_error + 's" where
  "foldE f [] s = Inr s"
| "foldE f (x # xs) s = (case f x s of Inl e \<Rightarrow> Inl e | Inr s' \<Rightarrow> foldE f xs s')"

text \<open>
  \<open>layerSizes[i]\<close> as a loop bound: \<open>j < undefined\<close> is false, so a missing size runs
  the loop zero times.
\<close>

definition size_at :: "nat list \<Rightarrow> nat \<Rightarrow> nat" where
  "size_at sizes i = (if i < length sizes then sizes ! i else 0)"

text \<open>
  \<open>rows[i] = row\<close> on an array of arrays. The index is at most the length wherever the
  program does this (\<open>forward\<close> writes the indices 0, 1, 2, ... in this order), so a
  write past the end appends exactly one element.
\<close>

definition arr_set :: "'a list \<Rightarrow> nat \<Rightarrow> 'a \<Rightarrow> 'a list" where
  "arr_set rows i row = (if i < length rows then rows[i := row] else rows @ [row])"

subsection \<open>The constructor\<close>

text \<open>
  \<open>Math.random()\<close> is a parameter: \<open>rnd n\<close> is the result of the \<open>n\<close>-th call, a
  number in \<open>[0, 1)\<close>. The constructor's state is the number of calls made so far and
  the network under construction.

  \<open>new Array(n)\<close> throws a \<open>RangeError\<close> unless \<open>n\<close> is an array length; for the
  integer sizes modelled here that is \<open>0 \<le> n < 2^32\<close>.
\<close>

type_synonym rng = "nat \<Rightarrow> real"

definition valid_array_length :: "int \<Rightarrow> bool" where
  "valid_array_length n \<longleftrightarrow> 0 \<le> n \<and> n < 2 ^ 32"

text \<open>\<open>new Array(n).fill(0).map(() => f(Math.random()))\<close>, starting at call \<open>pos\<close>.\<close>

definition random_row :: "rng \<Rightarrow> nat \<Rightarrow> nat \<Rightarrow> (real \<Rightarrow> jsnum) \<Rightarrow> jsnum list" where
  "random_row rnd pos n f = map (\<lambda>c. f (rnd (pos + c))) [0..<n]"

text \<open>One pass of the inner loop over \<open>j < prevSize\<close>: a row of weights and a row of deltas.\<close>

definition construct_row ::
  "rng \<Rightarrow> nat \<Rightarrow> jsnum \<Rightarrow> nat \<Rightarrow>
   nat \<times> jsnum list list \<times> jsnum list list \<Rightarrow> js_error + (nat \<times> jsnum list list \<times> jsnum list list)"
where
  "construct_row rnd currSize scale j st =
     (case st of (pos, layerWeights, layerDeltas) \<Rightarrow>
        Inr (pos + currSize,
             layerWeights @ [random_row rnd pos currSize (\<lambda>r. js_mul (Fin (r * 2 - 1)) scale)],
             layerDeltas @ [replicate currSize (Fin 0)]))"

text \<open>One pass of the outer loop over \<open>i < layerSizes.length\<close>.\<close>

definition construct_layer ::
  "rng \<Rightarrow> int list \<Rightarrow> nat \<Rightarrow> nat \<times> SimpleNetwork \<Rightarrow> js_error + (nat \<times> SimpleNetwork)"
where
  "construct_layer rnd sizes i st =
     (case st of (pos, net) \<Rightarrow>
        if \<not> valid_array_length (sizes ! i) then Inl RangeError
        else
          let net1 = net\<lparr>values' := values' net @ [replicate (nat (sizes ! i)) (Fin 0)],
                         preActivations := preActivations net @ [replicate (nat (sizes ! i)) (Fin 0)]\<rparr>
          in
          if 0 < i then
            let prevSize = nat (sizes ! (i - 1));
                currSize = nat (sizes ! i);
                scale = js_div (Fin 1) (Fin (sqrt (real prevSize)))
            in
            (case foldE (construct_row rnd currSize scale) [0..<prevSize] (pos, [], []) of
               Inl e \<Rightarrow> Inl e
             | Inr (pos1, layerWeights, layerDeltas) \<Rightarrow>
                 Inr (pos1 + currSize,
                      net1\<lparr>weights := weights net1 @ [layerWeights],
                           weightDeltas := weightDeltas net1 @ [layerDeltas],
                           biases := biases net1 @
                             [random_row rnd pos1 currSize (\<lambda>r. Fin (1 / 100 + r * (2 / 10)))]\<rparr>))
          else Inr (pos, net1))"

definition construct :: "rng \<Rightarrow> int list \<Rightarrow> ActivationKey list \<Rightarrow> js_error + SimpleNetwork" where
  "construct rnd sizes acts =
     (case foldE (construct_layer rnd sizes) [0..<length sizes]
             (0, \<lparr>layerSizes = map nat sizes, activations = acts, weights = [],
                  weightDeltas = [], biases = [], values' = [], preActivations = []\<rparr>) of
        Inl e \<Rightarrow> Inl e
      | Inr (pos, net) \<Rightarrow> Inr net)"

text \<open>
  A well-shaped network: one weight matrix, delta matrix and bias vector per layer
  transition, of the dimensions of the two layers; one value and one pre-activation vector
  per layer; and an activation key for every layer. The constructor builds this shape when
  it is given a key for every layer, and \<open>forward\<close>, \<open>train\<close> and \<open>setLayerBias\<close>
  keep it.
\<close>

definition wf_net :: "SimpleNetwork \<Rightarrow> bool" where
  "wf_net net \<longleftrightarrow>
     length (weights net) = length (layerSizes net) - 1
     \<and> length (weightDeltas net) = length (weights net)
     \<and> length (biases net) = length (weights net)
     \<and> length (values' net) = length (layerSizes net)
     \<and> length (preActivations net) = length (layerSizes net)
     \<and> length (layerSizes net) \<le> length (activations net)
     \<and> (\<forall>i < length (weights net).
          length (weights net ! i) = layerSizes net ! i
          \<and> (\<forall>k < layerSizes net ! i. length (weights net ! i ! k) = layerSizes net ! (i + 1))
          \<and> length (weightDeltas net ! i) = layerSizes net ! i
          \<and> (\<forall>k < layerSizes net ! i. length (weightDeltas net ! i ! k) = layerSizes net ! (i + 1))
          \<and> length (biases net ! i) = layerSizes net ! (i + 1))"

subsection \<open>The forward pass\<close>

text \<open>The innermost loop body: \<open>sum += prevValues[k] * currentWeights[k][j]\<close>.\<close>

definition sum_step :: "jsnum list \<Rightarrow> jsnum list list \<Rightarrow> nat \<Rightarrow> nat \<Rightarrow> jsnum \<Rightarrow> js_error + jsnum" where
  "sum_step prevValues currentWeights j k acc =
     (if k < length currentWeights
      then Inr (js_add acc (js_mul (num_at prevValues k) (num_at (currentWeights ! k) j)))
      else Inl TypeError)"

text \<open>
  The body of the loop over the units \<open>j\<close> of layer \<open>i + 1\<close>; its state is the pair of
  arrays \<open>nextValues\<close> and \<open>nextPreActivations\<close>.
\<close>

definition forward_unit ::
  "SimpleNetwork \<Rightarrow> nat \<Rightarrow> nat \<Rightarrow> jsnum list \<times> jsnum list \<Rightarrow> js_error + (jsnum list \<times> jsnum list)"
where
  "forward_unit net i j st =
     (case st of (nextValues, nextPreActivations) \<Rightarrow>
        let prevValues = values' net ! i in
        (case foldE (sum_step prevValues (weights net ! i) j) [0..<length prevValues] (Fin 0) of
           Inl e \<Rightarrow> Inl e
         | Inr sum0 \<Rightarrow>
             if i < length (biases net) then
               let sum1 = js_add sum0 (num_at (biases net ! i) j);
                   sum2 = (if isFinite sum1 then sum1 else Fin 0)
               in Inr (nextValues @ [act_func (activations net ! (i + 1)) sum2],
                       nextPreActivations @ [sum2])
             else Inl TypeError))"

text \<open>
  The body of the loop over \<open>i < weights.length\<close>. \<open>values[i]\<close> is defined when it is
  read (the pass has written the indices up to \<open>i\<close>); a missing activation key makes
  \<open>ACTIVATION_FUNCTIONS[undefined].func\<close> throw.
\<close>

definition forward_layer :: "nat \<Rightarrow> SimpleNetwork \<Rightarrow> js_error + SimpleNetwork" where
  "forward_layer i net =
     (let layerIndex = i + 1 in
      if i < length (values' net) \<and> layerIndex < length (activations net) then
        (case foldE (forward_unit net i) [0..<size_at (layerSizes net) layerIndex] ([], []) of
           Inl e \<Rightarrow> Inl e
         | Inr (nextValues, nextPreActivations) \<Rightarrow>
             Inr (net\<lparr>values' := arr_set (values' net) layerIndex nextValues,
                      preActivations := arr_set (preActivations net) layerIndex nextPreActivations\<rparr>))
      else Inl TypeError)"

text \<open>\<open>forward(inputs)\<close>: the returned vector and the network after the call.\<close>

definition forward :: "SimpleNetwork \<Rightarrow> jsnum list \<Rightarrow> js_error + (jsnum list \<times> SimpleNetwork)" where
  "forward net inputs =
     (let net0 = net\<lparr>values' := arr_set (values' net) 0 inputs,
                    preActivations := arr_set (preActivations net) 0 inputs\<rparr>
      in
      case foldE forward_layer [0..<length (weights net0)] net0 of
        Inl e \<Rightarrow> Inl e
      | Inr net1 \<Rightarrow> Inr (last (values' net1), net1))"

subsection \<open>Training\<close>

text \<open>\<open>Math.max(-1, Math.min(1, x))\<close>.\<close>

definition clip :: "jsnum \<Rightarrow> jsnum" where
  "clip x = js_max (Fin (- 1)) (js_min (Fin 1) x)"

text \<open>
  The loop that fills \<open>outputErrors\<close>: entry \<open>i\<close> is
  \<open>(targets[i] - outputs[i]) * outputDeriv(outputs[i])\<close>.
\<close>

definition output_errors :: "ActivationKey \<Rightarrow> jsnum list \<Rightarrow> jsnum list \<Rightarrow> jsnum list" where
  "output_errors key targets outputs =
     map (\<lambda>i. js_mul (js_sub (num_at targets i) (num_at outputs i))
                      (act_deriv key (num_at outputs i)))
         [0..<length outputs]"

text \<open>
  \<open>layerErrors\<close> is a sparse array: a map from layer indices to error vectors. An
  entry that was never written is \<open>undefined\<close>, and indexing it throws.

  The body of the two nested loops over \<open>k\<close> and \<open>j\<close> that update the weights of
  transition \<open>i\<close>.
\<close>

definition weight_step ::
  "nat \<Rightarrow> jsnum \<Rightarrow> jsnum list option \<Rightarrow> jsnum list \<Rightarrow> nat \<Rightarrow> nat \<Rightarrow>
   SimpleNetwork \<Rightarrow> js_error + SimpleNetwork"
where
  "weight_step i learningRate nextLayerErrors currentValues k j net =
     (case nextLayerErrors of
        None \<Rightarrow> Inl TypeError
      | Some errs \<Rightarrow>
          let gradient = js_mul (num_at errs j) (num_at currentValues k) in
          if \<not> isFinite gradient then Inr net
          else
            let delta = clip (js_mul learningRate gradient) in
            if k < length (weights net ! i) \<and> i < length (weightDeltas net)
               \<and> k < length (weightDeltas net ! i)
            then
              Inr (net\<lparr>weights := (weights net)[i := (weights net ! i)[k :=
                         num_set (weights net ! i ! k) j
                           (js_add (num_at (weights net ! i ! k) j) delta)]],
                       weightDeltas := (weightDeltas net)[i := (weightDeltas net ! i)[k :=
                         num_set (weightDeltas net ! i ! k) j delta]]\<rparr>)
            else Inl TypeError)"

text \<open>The body of the loop over \<open>j\<close> that updates the biases of transition \<open>i\<close>.\<close>

definition bias_step ::
  "nat \<Rightarrow> jsnum \<Rightarrow> jsnum list option \<Rightarrow> nat \<Rightarrow> SimpleNetwork \<Rightarrow> js_error + SimpleNetwork"
where
  "bias_step i learningRate nextLayerErrors j net =
     (case nextLayerErrors of
        None \<Rightarrow> Inl TypeError
      | Some errs \<Rightarrow>
          if i < length (biases net) then
            Inr (net\<lparr>biases := (biases net)[i :=
                       num_set (biases net ! i) j
                         (js_add (num_at (biases net ! i) j)
                                 (clip (js_mul learningRate (num_at errs j))))]\<rparr>)
          else Inl TypeError)"

text \<open>The inner loop of the error propagation: \<open>sum += nextLayerErrors[j] * weights[i][k][j]\<close>.\<close>

definition err_sum_step ::
  "SimpleNetwork \<Rightarrow> nat \<Rightarrow> jsnum list option \<Rightarrow> nat \<Rightarrow> nat \<Rightarrow> jsnum \<Rightarrow> js_error + jsnum"
where
  "err_sum_step net i nextLayerErrors k j acc =
     (case nextLayerErrors of
        None \<Rightarrow> Inl TypeError
      | Some errs \<Rightarrow>
          if k < length (weights net ! i)
          then Inr (js_add acc (js_mul (num_at errs j) (num_at (weights net ! i ! k) j)))
          else Inl TypeError)"

text \<open>The body of the loop over the units \<open>k\<close> of layer \<open>i\<close> that fills \<open>currentLayerErrors\<close>.\<close>

definition error_unit ::
  "SimpleNetwork \<Rightarrow> nat \<Rightarrow> jsnum list option \<Rightarrow> jsnum list \<Rightarrow> nat \<Rightarrow> jsnum list \<Rightarrow>
   js_error + jsnum list"
where
  "error_unit net i nextLayerErrors currentValues k currentLayerErrors =
     (case foldE (err_sum_step net i nextLayerErrors k)
             [0..<size_at (layerSizes net) (i + 1)] (Fin 0) of
        Inl e \<Rightarrow> Inl e
      | Inr sum0 \<Rightarrow>
          let sum1 = (if isFinite sum0 then sum0 else Fin 0) in
          Inr (currentLayerErrors @
                 [js_mul sum1 (act_deriv (activations net ! i) (num_at currentValues k))]))"

text \<open>
  The body of the loop \<open>for (i = weights.length - 1; i >= 0; i--)\<close>; its state is the
  network and \<open>layerErrors\<close>. For \<open>i > 0\<close> a missing activation key throws when
  \<open>currentLayerDeriv\<close> is looked up. \<open>values[i]\<close> is defined: the forward pass at the
  start of \<open>train\<close> has written it.
\<close>

definition train_layer ::
  "jsnum \<Rightarrow> nat \<Rightarrow> SimpleNetwork \<times> (nat \<rightharpoonup> jsnum list) \<Rightarrow>
   js_error + (SimpleNetwork \<times> (nat \<rightharpoonup> jsnum list))"
where
  "train_layer learningRate i st =
     (case st of (net, layerErrors) \<Rightarrow>
        let nextLayerErrors = layerErrors (i + 1);
            currentValues = values' net ! i
        in
        if 0 < i \<and> \<not> i < length (activations net) then Inl TypeError
        else
          (case foldE (\<lambda>k. foldE (weight_step i learningRate nextLayerErrors currentValues k)
                               [0..<size_at (layerSizes net) (i + 1)])
                  [0..<size_at (layerSizes net) i] net of
             Inl e \<Rightarrow> Inl e
           | Inr net1 \<Rightarrow>
               (case foldE (bias_step i learningRate nextLayerErrors)
                       [0..<size_at (layerSizes net) (i + 1)] net1 of
                  Inl e \<Rightarrow> Inl e
                | Inr net2 \<Rightarrow>
                    if 0 < i then
                      (case foldE (error_unit net2 i nextLayerErrors currentValues)
                              [0..<size_at (layerSizes net) i] [] of
                         Inl e \<Rightarrow> Inl e
                       | Inr currentLayerErrors \<Rightarrow>
                           Inr (net2, layerErrors(i \<mapsto> currentLayerErrors)))
                    else Inr (net2, layerErrors))))"

text \<open>
  \<open>train(inputs, targets, learningRate)\<close>, returning the network after the call together
  with the local \<open>layerErrors\<close>. With no layer at all \<open>outputLayerIdx\<close> is \<open>-1\<close> and the
  lookup of the output derivative throws; so does a missing activation key for the output
  layer, and a missing output vector when its length is read.
\<close>

definition train_errors ::
  "SimpleNetwork \<Rightarrow> jsnum list \<Rightarrow> jsnum list \<Rightarrow> jsnum \<Rightarrow>
   js_error + (SimpleNetwork \<times> (nat \<rightharpoonup> jsnum list))"
where
  "train_errors net inputs targets learningRate =
     (case forward net inputs of
        Inl e \<Rightarrow> Inl e
      | Inr (out, net1) \<Rightarrow>
          if layerSizes net1 = [] then Inl TypeError
          else
            let outputLayerIdx = length (layerSizes net1) - 1 in
            if outputLayerIdx < length (activations net1) \<and> outputLayerIdx < length (values' net1)
            then
              let outputs = values' net1 ! outputLayerIdx;
                  outputErrors = output_errors (activations net1 ! outputLayerIdx) targets outputs
              in foldE (train_layer learningRate) (rev [0..<length (weights net1)])
                   (net1, [outputLayerIdx \<mapsto> outputErrors])
            else Inl TypeError)"

definition train :: "SimpleNetwork \<Rightarrow> jsnum list \<Rightarrow> jsnum list \<Rightarrow> jsnum \<Rightarrow> js_error + SimpleNetwork" where
  "train net inputs targets learningRate =
     (case train_errors net inputs targets learningRate of
        Inl e \<Rightarrow> Inl e
      | Inr (net', layerErrors) \<Rightarrow> Inr net')"

subsection \<open>The forward pass as the specification words it\<close>

text \<open>
  The definitions of this subsection follow the specification, not the code: the
  pre-activation of a unit is the weighted sum of the previous layer's values plus the
  unit's bias, a non-finite sum is replaced by 0, and the unit's value is the activation
  function applied to it. \<open>layer_out net inputs l\<close> is the pair of the values and the
  pre-activations of layer \<open>l\<close>, and \<open>forward_result\<close> is the network with these
  caches. The theorems below compare them with \<open>forward\<close>.
\<close>

definition zero_if_nonfinite :: "jsnum \<Rightarrow> jsnum" where
  "zero_if_nonfinite s = (if isFinite s then s else Fin 0)"

definition weighted_sum :: "jsnum list \<Rightarrow> jsnum list list \<Rightarrow> nat \<Rightarrow> jsnum" where
  "weighted_sum prev w j =
     foldl (\<lambda>acc k. js_add acc (js_mul (prev ! k) (w ! k ! j))) (Fin 0) [0..<length prev]"

definition pre_act :: "SimpleNetwork \<Rightarrow> nat \<Rightarrow> jsnum list \<Rightarrow> nat \<Rightarrow> jsnum" where
  "pre_act net l prev j =
     zero_if_nonfinite (js_add (weighted_sum prev (weights net ! l) j) (biases net ! l ! j))"

fun layer_out :: "SimpleNetwork \<Rightarrow> jsnum list \<Rightarrow> nat \<Rightarrow> jsnum list \<times> jsnum list" where
  "layer_out net inputs 0 = (inputs, inputs)"
| "layer_out net inputs (Suc l) =
     (let pre = map (pre_act net l (fst (layer_out net inputs l))) [0..<layerSizes net ! Suc l]
      in (map (act_func (activations net ! Suc l)) pre, pre))"

definition forward_result :: "SimpleNetwork \<Rightarrow> jsnum list \<Rightarrow> SimpleNetwork" where
  "forward_result net inputs =
     net\<lparr>values' := map (\<lambda>l. fst (layer_out net inputs l)) [0..<length (layerSizes net)],
         preActivations := map (\<lambda>l. snd (layer_out net inputs l)) [0..<length (layerSizes net)]\<rparr>"

subsection \<open>Backpropagated errors\<close>

text \<open>
  The error vector of a hidden layer \<open>k\<close>, from the error vector of layer \<open>k + 1\<close>,
  the weights of transition \<open>k\<close> and the values of layer \<open>k\<close> that a network holds:
  for every unit, the sum over \<open>j\<close> of \<open>error[j] * weight[unit][j]\<close>, times the
  derivative at the unit's value. \<open>hidden_errors\<close> replaces a non-finite sum by 0, as
  the code does; \<open>claimed_hidden_errors\<close> is the formula without that step.
\<close>

definition backprop_sum :: "jsnum list \<Rightarrow> jsnum list \<Rightarrow> jsnum" where
  "backprop_sum errs row =
     foldl (\<lambda>acc j. js_add acc (js_mul (errs ! j) (row ! j))) (Fin 0) [0..<length errs]"

definition hidden_errors :: "SimpleNetwork \<Rightarrow> nat \<Rightarrow> jsnum list \<Rightarrow> jsnum list" where
  "hidden_errors net k nextErrors =
     map (\<lambda>u. js_mul (zero_if_nonfinite (backprop_sum nextErrors (weights net ! k ! u)))
                      (act_deriv (activations net ! k) (values' net ! k ! u)))
         [0..<layerSizes net ! k]"

definition claimed_hidden_errors :: "SimpleNetwork \<Rightarrow> nat \<Rightarrow> jsnum list \<Rightarrow> jsnum list" where
  "claimed_hidden_errors net k nextErrors =
     map (\<lambda>u. js_mul (backprop_sum nextErrors (weights net ! k ! u))
                      (act_deriv (activations net ! k) (values' net ! k ! u)))
         [0..<layerSizes net ! k]"

text \<open>The entry of \<open>layerErrors\<close> for a layer, after a call of \<open>train\<close> that returned.\<close>

definition layer_errors_of ::
  "js_error + (SimpleNetwork \<times> (nat \<rightharpoonup> jsnum list)) \<Rightarrow> nat \<Rightarrow> jsnum list option" where
  "layer_errors_of r l = (case r of Inl e \<Rightarrow> None | Inr (net, layerErrors) \<Rightarrow> layerErrors l)"

text \<open>
  What the updates of transition \<open>i\<close> keep of a network \<open>n0\<close>: its shape, its
  layer sizes, activations and caches, and the weights of every other transition.
\<close>

definition upd_inv :: "SimpleNetwork \<Rightarrow> nat \<Rightarrow> SimpleNetwork \<Rightarrow> bool" where
  "upd_inv n0 i s \<longleftrightarrow>
     wf_net s \<and> layerSizes s = layerSizes n0 \<and> activations s = activations n0
     \<and> values' s = values' n0 \<and> preActivations s = preActivations n0
     \<and> (\<forall>l. l \<noteq> i \<longrightarrow> weights s ! l = weights n0 ! l)"

subsection \<open>Constructor runs\<close>

text \<open>A random source whose every call returns 0.\<close>

definition zero_rng :: rng where
  "zero_rng n = 0"

text \<open>
  The state of the constructor after \<open>m\<close> passes of its outer loop: \<open>m\<close> value and
  pre-activation vectors, and the matrices and bias vectors of the first \<open>m - 1\<close>
  transitions, each of the dimensions of its two layers.
\<close>

definition cinv :: "int list \<Rightarrow> ActivationKey list \<Rightarrow> nat \<Rightarrow> nat \<times> SimpleNetwork \<Rightarrow> bool" where
  "cinv sizes acts m st \<longleftrightarrow>
     (case st of (pos, net) \<Rightarrow>
        layerSizes net = map nat sizes \<and> activations net = acts
        \<and> length (values' net) = m \<and> length (preActivations net) = m
        \<and> length (weights net) = m - 1 \<and> length (weightDeltas net) = m - 1
        \<and> length (biases net) = m - 1
        \<and> (\<forall>i < m - 1.
              length (weights net ! i) = nat (sizes ! i)
            \<and> (\<forall>k < nat (sizes ! i). length (weights net ! i ! k) = nat (sizes ! (i + 1)))
            \<and> length (weightDeltas net ! i) = nat (sizes ! i)
            \<and> (\<forall>k < nat (sizes ! i). length (weightDeltas net ! i ! k) = nat (sizes ! (i + 1)))
            \<and> length (biases net ! i) = nat (sizes ! (i + 1))))"

section \<open>The simulation loop\<close>

text \<open>
  The component's state that the turbo branch of the simulation loop reads and writes:
  the network (\<open>networkRef.current\<close>), the epoch counter (\<open>epochRef.current\<close> and the
  state \<open>epochs\<close> shown on screen), the loss history, the snapshot \<open>displayStats\<close>,
  the two flags, and whether \<open>requestAnimationFrame(loop)\<close> has scheduled another frame.
  The inputs, the target and the learning rate are the values the loop's closure captured.
\<close>

record DisplayStats =
  stats_values :: "jsnum list list"
  stats_weights :: "jsnum list list list"
  stats_deltas :: "jsnum list list list"
  stats_biases :: "jsnum list list"
  stats_preActivations :: "jsnum list list"
  stats_loss :: jsnum

text \<open>
  \<open>JSON.parse(JSON.stringify(x))\<close> on a number: a non-finite number comes back as
  \<open>null\<close>, which the only readers modelled here (\<open>x || 0\<close>) treat as they treat
  \<open>NaN\<close>.
\<close>

definition json_num :: "jsnum \<Rightarrow> jsnum" where
  "json_num x = (if isFinite x then x else NaN)"

text \<open>\<open>x || 0\<close> on a number or \<open>undefined\<close>: the falsy values are 0, \<open>NaN\<close> and \<open>undefined\<close>.\<close>

definition or_zero :: "jsnum \<Rightarrow> jsnum" where
  "or_zero x = (if x = NaN \<or> x = Fin 0 then Fin 0 else x)"

record Simulation =
  network :: SimpleNetwork
  epochRef :: nat
  epochs :: nat
  lossHistory :: "(nat \<times> jsnum) list"
  displayStats :: DisplayStats
  isPlaying :: bool
  isOptimized :: bool
  framePending :: bool

definition CONVERGENCE :: jsnum where
  "CONVERGENCE = Fin (5 / 100000)"

text \<open>
  The loop of \<open>updateVisuals\<close> that sums \<open>0.5 * Math.pow((target[i] || 0) - output[i], 2)\<close>;
  the square is the product of the difference with itself.
\<close>

definition loss_step :: "jsnum list \<Rightarrow> jsnum list \<Rightarrow> nat \<Rightarrow> jsnum \<Rightarrow> js_error + jsnum" where
  "loss_step target output i totalLoss =
     (let d = js_sub (or_zero (num_at target i)) (num_at output i)
      in Inr (js_add totalLoss (js_mul (Fin (1 / 2)) (js_mul d d))))"

text \<open>
  \<open>updateVisuals()\<close>: the total loss and the state with the new snapshot. The output
  vector is the last of \<open>net.values\<close>; with no value vector its length cannot be read.
\<close>

definition updateVisuals :: "jsnum list \<Rightarrow> Simulation \<Rightarrow> js_error + (jsnum \<times> Simulation)" where
  "updateVisuals target s =
     (let net = network s in
      if values' net = [] then Inl TypeError
      else
        let output = last (values' net) in
        case foldE (loss_step target output) [0..<length output] (Fin 0) of
          Inl e \<Rightarrow> Inl e
        | Inr totalLoss \<Rightarrow>
            Inr (totalLoss,
                 s\<lparr>displayStats :=
                     \<lparr>stats_values = map (map json_num) (values' net),
                      stats_weights = map (map (map json_num)) (weights net),
                      stats_deltas = map (map (map json_num)) (weightDeltas net),
                      stats_biases = map (map json_num) (biases net),
                      stats_preActivations = map (map json_num) (preActivations net),
                      stats_loss = totalLoss\<rparr>\<rparr>))"

text \<open>
  One call of \<open>loop\<close>, that is one rendering frame in turbo mode. The closure's
  \<open>isPlaying\<close> is true (the effect only defines \<open>loop\<close> when it is), so the frame
  schedules the next one exactly when the loss is not below the threshold.
\<close>

definition turbo_loop ::
  "jsnum list \<Rightarrow> jsnum list \<Rightarrow> jsnum \<Rightarrow> Simulation \<Rightarrow> js_error + Simulation" where
  "turbo_loop inputs target learningRate s =
     (case foldE (\<lambda>k net. train net inputs target learningRate) [0..<10] (network s) of
        Inl e \<Rightarrow> Inl e
      | Inr net' \<Rightarrow>
          let s1 = s\<lparr>network := net', epochRef := epochRef s + 10\<rparr>;
              s2 = s1\<lparr>epochs := epochRef s1\<rparr>
          in
          (case updateVisuals target s2 of
             Inl e \<Rightarrow> Inl e
           | Inr (loss, s3) \<Rightarrow>
               let h = lossHistory s3 @ [(epochRef s3, loss)];
                   s4 = s3\<lparr>lossHistory := (if 200 < length h then drop (length h - 200) h else h)\<rparr>
               in
               if js_lt loss CONVERGENCE
               then Inr (s4\<lparr>isPlaying := False, isOptimized := True, framePending := False\<rparr>)
               else Inr (s4\<lparr>framePending := True\<rparr>)))"

text \<open>Up to \<open>n\<close> frames: each runs \<open>loop\<close>, and the run ends when no frame is scheduled.\<close>

fun turbo_frames ::
  "jsnum list \<Rightarrow> jsnum list \<Rightarrow> jsnum \<Rightarrow> nat \<Rightarrow> Simulation \<Rightarrow> js_error + Simulation" where
  "turbo_frames inputs target learningRate 0 s = Inr s"
| "turbo_frames inputs target learningRate (Suc n) s =
     (case turbo_loop inputs target learningRate s of
        Inl e \<Rightarrow> Inl e
      | Inr s' \<Rightarrow>
          if framePending s' then turbo_frames inputs target learningRate n s' else Inr s')"

text \<open>
  How many of these frames run: the run stops after the first frame that schedules no
  other, and that frame, or one that throws, has run.
\<close>

fun frames_executed ::
  "jsnum list \<Rightarrow> jsnum list \<Rightarrow> jsnum \<Rightarrow> nat \<Rightarrow> Simulation \<Rightarrow> nat" where
  "frames_executed inputs target learningRate 0 s = 0"
| "frames_executed inputs target learningRate (Suc n) s =
     (case turbo_loop inputs target learningRate s of
        Inl e \<Rightarrow> 1
      | Inr s' \<Rightarrow>
          if framePending s' then Suc (frames_executed inputs target learningRate n s') else 1)"

text \<open>\<open>n\<close> successive calls of \<open>train\<close> with the same arguments.\<close>

definition train_times ::
  "jsnum list \<Rightarrow> jsnum list \<Rightarrow> jsnum \<Rightarrow> nat \<Rightarrow> SimpleNetwork \<Rightarrow> js_error + SimpleNetwork" where
  "train_times inputs target learningRate n net =
     foldE (\<lambda>k net. train net inputs target learningRate) [0..<n] net"

text \<open>
  A simulation to run: two layers of one unit, LeakyReLU, weight 1 and bias \<open>b\<close>; it is
  trained on input 0 at learning rate 1/10, starting from bias 1, towards target 2 (which
  it does not reach in 20 steps) and towards target 1 (where it already is).
\<close>

definition bias_net :: "real \<Rightarrow> jsnum list list \<Rightarrow> SimpleNetwork" where
  "bias_net b vs =
     \<lparr>layerSizes = [1, 1], activations = [LEAKY_RELU, LEAKY_RELU],
      weights = [[[Fin 1]]], weightDeltas = [[[Fin 0]]], biases = [[Fin b]],
      values' = vs, preActivations = vs\<rparr>"

definition example_sim :: Simulation where
  "example_sim =
     \<lparr>network = bias_net 1 [[Fin 0], [Fin 0]], epochRef = 0, epochs = 0, lossHistory = [],
      displayStats = \<lparr>stats_values = [], stats_weights = [], stats_deltas = [],
                      stats_biases = [], stats_preActivations = [], stats_loss = Fin 0\<rparr>,
      isPlaying = True, isOptimized = False, framePending = False\<rparr>"

section \<open>Projection engine and scene builder\<close>

text \<open>
  The layer grid (\<open>layerDims\<close>, integer row and column extents) and the camera state:
  yaw and pitch in degrees (\<open>cameraAngle.h\<close>, \<open>cameraAngle.v\<close>), zoom (\<open>viewScale\<close>),
  pan (\<open>viewOffset\<close>) and the projection mode. They are finite numbers, so the rotation
  is computed over the reals, exactly: the rounding of double arithmetic is left out. The
  scale and the screen coordinates divide by \<open>fov - depth\<close> and are JavaScript numbers.
\<close>

record LayerDim =
  rows :: nat
  cols :: nat

record Camera =
  cameraAngle_h :: real
  cameraAngle_v :: real
  viewScale :: real
  viewOffset_x :: real
  viewOffset_y :: real
  isOrtho :: bool

record ScreenPos =
  pos_x :: jsnum
  pos_y :: jsnum
  pos_scale :: jsnum
  pos_depth :: real

text \<open>
  \<open>project3D(layerIdx, row, col)\<close>, in three parts: the centred 3D position of the grid
  point, the yaw rotation followed by the pitch rotation, and the projection. A layer index
  without a grid entry makes \<open>dims.rows\<close> throw.
\<close>

definition position3D :: "LayerDim list \<Rightarrow> LayerDim \<Rightarrow> nat \<Rightarrow> nat \<Rightarrow> nat \<Rightarrow> real \<times> real \<times> real" where
  "position3D layerDims dims layerIdx row col =
     (let layerSpacing = 250;
          rowSpacing = 80;
          colSpacing = 80;
          totalLayersWidth = (real (length layerDims) - 1) * layerSpacing;
          xStart = - totalLayersWidth / 2;
          yStart = - ((real (rows dims) - 1) * rowSpacing) / 2;
          zStart = - ((real (cols dims) - 1) * colSpacing) / 2
      in (xStart + real layerIdx * layerSpacing,
          yStart + real row * rowSpacing,
          zStart + real col * colSpacing))"

definition rotate3D :: "Camera \<Rightarrow> real \<times> real \<times> real \<Rightarrow> real \<times> real \<times> real" where
  "rotate3D cam p =
     (case p of (x3d, y3d, z3d) \<Rightarrow>
        let radH = (cameraAngle_h cam * pi) / 180;
            radV = (cameraAngle_v cam * pi) / 180;
            cosH = cos radH;
            sinH = sin radH;
            cosV = cos radV;
            sinV = sin radV;
            x1 = x3d * cosH - z3d * sinH;
            y1 = y3d;
            z1 = x3d * sinH + z3d * cosH;
            x2 = x1;
            y2 = y1 * cosV - z1 * sinV;
            z2 = y1 * sinV + z1 * cosV
        in (x2, y2, z2))"

definition project3D :: "LayerDim list \<Rightarrow> Camera \<Rightarrow> nat \<Rightarrow> nat \<Rightarrow> nat \<Rightarrow> js_error + ScreenPos" where
  "project3D layerDims cam layerIdx row col =
     (if layerIdx < length layerDims then
        (case rotate3D cam (position3D layerDims (layerDims ! layerIdx) layerIdx row col) of
           (x2, y2, z2) \<Rightarrow>
             let fov = 1000;
                 baseScale = (if isOrtho cam then Fin 1 else js_div (Fin fov) (Fin (fov - z2)));
                 finalScale = js_mul baseScale (Fin (viewScale cam))
             in Inr \<lparr>pos_x = js_add (js_add (Fin 400)
                                (js_mul (Fin (x2 * viewScale cam))
                                        (if isOrtho cam then Fin 1 else baseScale)))
                              (Fin (viewOffset_x cam)),
                     pos_y = js_add (js_add (Fin 300)
                                (js_mul (Fin (y2 * viewScale cam))
                                        (if isOrtho cam then Fin 1 else baseScale)))
                              (Fin (viewOffset_y cam)),
                     pos_scale = finalScale,
                     pos_depth = z2\<rparr>)
      else Inl TypeError)"



definition side_camera :: Camera where
  "side_camera = \<lparr>cameraAngle_h = 90, cameraAngle_v = 0, viewScale = 1,
                   viewOffset_x = 0, viewOffset_y = 0, isOrtho = False\<rparr>"

text \<open>
  The render items, with the fields the scene builder gives them (the \<open>key\<close> strings,
  which repeat the indices, are left out). The last field of every variant is \<open>depth\<close>.
\<close>

datatype RenderItem =
    NODE nat nat bool bool ScreenPos jsnum jsnum real
  | LAYER_CONTROL nat ScreenPos real
  | ACTIVATION_CONTROL nat ScreenPos real
  | LINK nat nat nat ScreenPos ScreenPos jsnum jsnum real

fun item_depth :: "RenderItem \<Rightarrow> real" where
  "item_depth (NODE lIdx flatIdx isInput isOutput pos v bias depth) = depth"
| "item_depth (LAYER_CONTROL lIdx pos depth) = depth"
| "item_depth (ACTIVATION_CONTROL lIdx pos depth) = depth"
| "item_depth (LINK lIdx fromFlat toFlat fromPos toPos w delta depth) = depth"

text \<open>\<open>xss[i]?.[j] || 0\<close> and \<open>xsss[i]?.[j]?.[k] || 0\<close>.\<close>

definition opt_num2 :: "jsnum list list \<Rightarrow> nat \<Rightarrow> nat \<Rightarrow> jsnum" where
  "opt_num2 xss i j = or_zero (if i < length xss then num_at (xss ! i) j else NaN)"

definition opt_num3 :: "jsnum list list list \<Rightarrow> nat \<Rightarrow> nat \<Rightarrow> nat \<Rightarrow> jsnum" where
  "opt_num3 xsss i j k = (if i < length xsss then opt_num2 (xsss ! i) j k else Fin 0)"

text \<open>The body of the loops over the rows and columns of layer \<open>lIdx\<close> that emit the nodes and controls.\<close>

definition node_step ::
  "LayerDim list \<Rightarrow> Camera \<Rightarrow> DisplayStats \<Rightarrow> nat \<Rightarrow> nat \<Rightarrow> nat \<Rightarrow> RenderItem list \<Rightarrow>
   js_error + RenderItem list"
where
  "node_step layerDims cam stats lIdx r c items =
     (let dim = layerDims ! lIdx;
          flatIdx = r * cols dim + c
      in
      case project3D layerDims cam lIdx r c of
        Inl e \<Rightarrow> Inl e
      | Inr pos \<Rightarrow>
          let v = opt_num2 (stats_values stats) lIdx flatIdx;
              bias = (if 0 < lIdx then opt_num2 (stats_biases stats) (lIdx - 1) flatIdx else Fin 0);
              isInput = (lIdx = 0);
              isOutput = (int lIdx = int (length layerDims) - 1);
              items1 = items @ [NODE lIdx flatIdx isInput isOutput pos v bias (pos_depth pos)];
              items2 =
                (if int r = int (rows dim) - 1 \<and> c = cols dim div 2
                 then items1 @
                   [LAYER_CONTROL lIdx
                      (pos\<lparr>pos_y := js_add (pos_y pos) (js_mul (Fin 60) (pos_scale pos))\<rparr>)
                      (pos_depth pos + 10)]
                 else items1);
              items3 =
                (if \<not> isInput \<and> \<not> isOutput \<and> r = 0 \<and> c = cols dim div 2
                 then items2 @
                   [ACTIVATION_CONTROL lIdx
                      (pos\<lparr>pos_y := js_sub (pos_y pos) (js_mul (Fin 90) (pos_scale pos))\<rparr>)
                      (pos_depth pos + 10)]
                 else items2)
          in Inr items3)"

text \<open>
  The connections: the body of the loops over the target unit, of the loops over the source
  unit, and of \<open>displayStats.weights.forEach\<close>, which returns at once when the grid has
  no next layer.
\<close>

definition link_step ::
  "LayerDim list \<Rightarrow> Camera \<Rightarrow> DisplayStats \<Rightarrow> nat \<Rightarrow> jsnum list list \<Rightarrow> nat \<Rightarrow> ScreenPos \<Rightarrow>
   nat \<Rightarrow> nat \<Rightarrow> RenderItem list \<Rightarrow> js_error + RenderItem list"
where
  "link_step layerDims cam stats lIdx layerWeights fromFlat fromPos r2 c2 items =
     (let toDim = layerDims ! (lIdx + 1);
          toFlat = r2 * cols toDim + c2
      in
      case project3D layerDims cam (lIdx + 1) r2 c2 of
        Inl e \<Rightarrow> Inl e
      | Inr toPos \<Rightarrow>
          let w = opt_num2 layerWeights fromFlat toFlat;
              delta = opt_num3 (stats_deltas stats) lIdx fromFlat toFlat;
              depth = (pos_depth fromPos + pos_depth toPos) / 2
          in Inr (items @ [LINK lIdx fromFlat toFlat fromPos toPos w delta depth]))"

definition from_step ::
  "LayerDim list \<Rightarrow> Camera \<Rightarrow> DisplayStats \<Rightarrow> nat \<Rightarrow> jsnum list list \<Rightarrow> nat \<Rightarrow> nat \<Rightarrow>
   RenderItem list \<Rightarrow> js_error + RenderItem list"
where
  "from_step layerDims cam stats lIdx layerWeights r1 c1 items =
     (let fromDim = layerDims ! lIdx;
          toDim = layerDims ! (lIdx + 1);
          fromFlat = r1 * cols fromDim + c1
      in
      case project3D layerDims cam lIdx r1 c1 of
        Inl e \<Rightarrow> Inl e
      | Inr fromPos \<Rightarrow>
          foldE (\<lambda>r2. foldE (link_step layerDims cam stats lIdx layerWeights fromFlat fromPos r2)
                          [0..<cols toDim])
            [0..<rows toDim] items)"

definition links_step ::
  "LayerDim list \<Rightarrow> Camera \<Rightarrow> DisplayStats \<Rightarrow> nat \<Rightarrow> RenderItem list \<Rightarrow> js_error + RenderItem list"
where
  "links_step layerDims cam stats lIdx items =
     (if lIdx + 1 < length layerDims then
        let layerWeights = stats_weights stats ! lIdx;
            fromDim = layerDims ! lIdx
        in foldE (\<lambda>r1. foldE (from_step layerDims cam stats lIdx layerWeights r1) [0..<cols fromDim])
             [0..<rows fromDim] items
      else Inr items)"

text \<open>
  \<open>items.sort((a, b) => a.depth - b.depth)\<close>. \<open>Array.prototype.sort\<close> is a stable
  sort; it is modelled as the stable insertion sort with this comparator: an item goes
  before the first item the comparator puts after it.
\<close>

fun insert_by_depth :: "RenderItem \<Rightarrow> RenderItem list \<Rightarrow> RenderItem list" where
  "insert_by_depth a [] = [a]"
| "insert_by_depth a (b # bs) =
     (if 0 < item_depth b - item_depth a then a # b # bs else b # insert_by_depth a bs)"

definition sort_by_depth :: "RenderItem list \<Rightarrow> RenderItem list" where
  "sort_by_depth items = foldl (\<lambda>sorted_items a. insert_by_depth a sorted_items) [] items"

text \<open>The memoised \<open>renderItems\<close>: empty while \<open>displayStats.values\<close> is empty.\<close>

definition renderItems :: "LayerDim list \<Rightarrow> Camera \<Rightarrow> DisplayStats \<Rightarrow> js_error + RenderItem list" where
  "renderItems layerDims cam stats =
     (if stats_values stats = [] then Inr []
      else
        case foldE (\<lambda>lIdx. foldE (\<lambda>r. foldE (node_step layerDims cam stats lIdx r)
                                           [0..<cols (layerDims ! lIdx)])
                            [0..<rows (layerDims ! lIdx)])
               [0..<length layerDims] [] of
          Inl e \<Rightarrow> Inl e
        | Inr nodes \<Rightarrow>
            (case foldE (links_step layerDims cam stats) [0..<length (stats_weights stats)] nodes of
               Inl e \<Rightarrow> Inl e
             | Inr items \<Rightarrow> Inr (sort_by_depth items)))"

text \<open>Two layers of one unit each, and a snapshot of a network of that shape.\<close>

definition two_layers :: "LayerDim list" where
  "two_layers = [\<lparr>rows = 1, cols = 1\<rparr>, \<lparr>rows = 1, cols = 1\<rparr>]"

definition example_stats :: DisplayStats where
  "example_stats =
     \<lparr>stats_values = [[Fin 0], [Fin 1]], stats_weights = [[[Fin 1]]], stats_deltas = [[[Fin 0]]],
      stats_biases = [[Fin 1]], stats_preActivations = [[Fin 0], [Fin 1]], stats_loss = Fin 0\<rparr>"

subsection \<open>A concrete network\<close>

text \<open>
  Three layers of one unit each, LeakyReLU throughout, both weights 1 and both biases 0:
  the network the examples below run.
\<close>

definition example_net :: SimpleNetwork where
  "example_net =
     \<lparr>layerSizes = [1, 1, 1],
      activations = [LEAKY_RELU, LEAKY_RELU, LEAKY_RELU],
      weights = [[[Fin 1]], [[Fin 1]]],
      weightDeltas = [[[Fin 0]], [[Fin 0]]],
      biases = [[Fin 0], [Fin 0]],
      values' = [[Fin 0], [Fin 0], [Fin 0]],
      preActivations = [[Fin 0], [Fin 0], [Fin 0]]\<rparr>"

section \<open>Properties of the activation registry and of \<open>setLayerBias\<close>\<close>

lemma js_max_Fin: "js_max (Fin a) (Fin b) = Fin (max a b)"
  by (simp add: js_max_def max_def)

lemma js_min_Fin: "js_min (Fin a) (Fin b) = Fin (min a b)"
  by (simp add: js_min_def min_def)

lemma js_sub_Fin: "js_sub (Fin a) (Fin b) = Fin (a - b)"
  by (simp add: js_sub_def)

lemma ActivationKey_UNIV: "(UNIV :: ActivationKey set) = {SIGMOID, TANH, RELU, LEAKY_RELU, ELU}"
proof -
  have "k \<in> {SIGMOID, TANH, RELU, LEAKY_RELU, ELU}" for k
    by (cases k) simp_all
  then show ?thesis by blast
qed

text \<open>
  C5. The registry has exactly the five keys Sigmoid, Tanh, ReLU, LeakyReLU and ELU, and
  on every finite argument each forward function (of the raw input \<open>x\<close>) and each
  derivative (of the forward output \<open>y\<close>) is the formula of the specification.
\<close>

theorem activation_registry_formulas:
  "set ACTIVATION_KEYS = UNIV
   \<and> distinct ACTIVATION_KEYS
   \<and> length ACTIVATION_KEYS = 5
   \<and> act_func SIGMOID (Fin x) = Fin (1 / (1 + exp (- x)))
   \<and> act_deriv SIGMOID (Fin y) = Fin (y * (1 - y))
   \<and> act_func TANH (Fin x) = Fin (tanh x)
   \<and> act_deriv TANH (Fin y) = Fin (1 - y\<^sup>2)
   \<and> act_func RELU (Fin x) = Fin (max 0 x)
   \<and> act_deriv RELU (Fin y) = Fin (if 0 < y then 1 else 0.05)
   \<and> act_func LEAKY_RELU (Fin x) = Fin (max (0.01 * x) x)
   \<and> act_deriv LEAKY_RELU (Fin y) = Fin (if 0 < y then 1 else 0.01)
   \<and> act_func ELU (Fin x) = Fin (if 0 \<le> x then x else exp x - 1)
   \<and> act_deriv ELU (Fin y) = Fin (if 0 < y then 1 else y + 1)"
proof -
  have keys: "set ACTIVATION_KEYS = UNIV" "distinct ACTIVATION_KEYS" "length ACTIVATION_KEYS = 5"
    by (simp_all add: ACTIVATION_KEYS_def ActivationKey_UNIV)
  have "1 + exp (- x) \<noteq> 0"
    using exp_gt_zero [of "- x"] by linarith
  then have sig: "act_func SIGMOID (Fin x) = Fin (1 / (1 + exp (- x)))"
    by simp
  have sig': "act_deriv SIGMOID (Fin y) = Fin (y * (1 - y))"
    by (simp add: js_sub_Fin)
  have tan': "act_deriv TANH (Fin y) = Fin (1 - y\<^sup>2)"
    by (simp add: js_sub_Fin power2_eq_square)
  have relu: "act_func RELU (Fin x) = Fin (max 0 x)"
    by (simp add: js_max_Fin)
  have lrelu: "act_func LEAKY_RELU (Fin x) = Fin (max (0.01 * x) x)"
    by (simp add: js_max_Fin)
  have elu: "act_func ELU (Fin x) = Fin (if 0 \<le> x then x else exp x - 1)"
    by (simp add: js_sub_Fin)
  show ?thesis
    using keys sig sig' tan' relu lrelu elu by simp
qed

text \<open>
  C10. In a network whose bias list has one vector per layer transition (number of
  layers minus one, as the constructor builds it), \<open>setLayerBias\<close> with a layer index
  outside \<open>1 .. number of layers - 1\<close> returns normally and leaves every field of the
  network as it was.
\<close>

theorem setLayerBias_out_of_range_noop:
  assumes "length (biases net) = length (layerSizes net) - 1"
    and "\<not> (1 \<le> layerIdx \<and> layerIdx \<le> int (length (layerSizes net)) - 1)"
  shows "setLayerBias net layerIdx v = net"
  using assms by (auto simp: setLayerBias_def Let_def)

lemma setLayerBias_wf: "wf_net net \<Longrightarrow> wf_net (setLayerBias net layerIdx v)"
  by (auto simp: wf_net_def setLayerBias_def Let_def nth_list_update)

section \<open>The forward pass\<close>

lemma foldE_append:
  "foldE f (xs @ ys) s = (case foldE f xs s of Inl e \<Rightarrow> Inl e | Inr s' \<Rightarrow> foldE f ys s')"
  by (induction xs arbitrary: s) (auto split: sum.splits)

lemma sum_loop:
  assumes "n \<le> length cw" "n \<le> length pv" "\<forall>k<n. j < length (cw ! k)"
  shows "foldE (sum_step pv cw j) [0..<n] acc =
         Inr (foldl (\<lambda>acc k. js_add acc (js_mul (pv ! k) (cw ! k ! j))) acc [0..<n])"
  using assms
proof (induction n)
  case 0
  then show ?case by simp
next
  case (Suc n)
  then show ?case
    by (simp add: foldE_append sum_step_def num_at_def)
qed

lemma forward_unit_loop:
  assumes "i < length (biases net)" "length (values' net ! i) \<le> length (weights net ! i)"
    and "\<forall>k<length (values' net ! i). length (weights net ! i ! k) = m"
    and "length (biases net ! i) = m" "n \<le> m"
  shows "foldE (forward_unit net i) [0..<n] (vs, ps) =
         Inr (vs @ map (\<lambda>j. act_func (activations net ! Suc i) (pre_act net i (values' net ! i) j)) [0..<n],
              ps @ map (pre_act net i (values' net ! i)) [0..<n])"
  using assms(5)
proof (induction n)
  case 0
  then show ?case by simp
next
  case (Suc n)
  have "foldE (sum_step (values' net ! i) (weights net ! i) n) [0..<length (values' net ! i)] (Fin 0)
        = Inr (weighted_sum (values' net ! i) (weights net ! i) n)"
    unfolding weighted_sum_def
    using assms Suc.prems by (intro sum_loop) auto
  with Suc assms show ?case
    by (simp add: foldE_append forward_unit_def pre_act_def zero_if_nonfinite_def num_at_def Let_def)
qed


lemma length_layer_out_Suc:
  "length (fst (layer_out net inputs (Suc l))) = layerSizes net ! Suc l"
  "length (snd (layer_out net inputs (Suc l))) = layerSizes net ! Suc l"
  by (simp_all add: Let_def)

lemma length_layer_out:
  assumes "length inputs = layerSizes net ! 0"
  shows "length (fst (layer_out net inputs l)) = layerSizes net ! l"
  using assms by (cases l) (simp_all add: Let_def)

lemma forward_layer_ok:
  assumes wf: "wf_net net" and i: "i < length (weights net)"
    and vs: "length vs = length (layerSizes net)" "length ps = length (layerSizes net)"
    and prev: "vs ! i = fst (layer_out net inputs i)" "length (vs ! i) = layerSizes net ! i"
  shows "forward_layer i (net\<lparr>values' := vs, preActivations := ps\<rparr>) =
         Inr (net\<lparr>values' := vs[Suc i := fst (layer_out net inputs (Suc i))],
                  preActivations := ps[Suc i := snd (layer_out net inputs (Suc i))]\<rparr>)"
proof -
  let ?n = "net\<lparr>values' := vs, preActivations := ps\<rparr>"
  from wf i have L: "Suc i < length (layerSizes net)" "Suc i < length (activations net)"
    "i < length (biases net)"
    by (auto simp: wf_net_def)
  from wf i have shape: "length (weights net ! i) = layerSizes net ! i"
    "\<forall>k<layerSizes net ! i. length (weights net ! i ! k) = layerSizes net ! Suc i"
    "length (biases net ! i) = layerSizes net ! Suc i"
    by (auto simp: wf_net_def)
  have "foldE (forward_unit ?n i) [0..<layerSizes net ! Suc i] ([], []) =
        Inr ([] @ map (\<lambda>j. act_func (activations ?n ! Suc i) (pre_act ?n i (values' ?n ! i) j))
                    [0..<layerSizes net ! Suc i],
             [] @ map (pre_act ?n i (values' ?n ! i)) [0..<layerSizes net ! Suc i])"
    using L shape prev by (intro forward_unit_loop [where m = "layerSizes net ! Suc i"]) auto
  moreover have "pre_act ?n i = pre_act net i"
    by (simp add: pre_act_def fun_eq_iff)
  ultimately show ?thesis
    using L vs prev
    by (simp add: forward_layer_def size_at_def arr_set_def Let_def comp_def)
qed

lemma forward_loop:
  assumes wf: "wf_net net" and ne: "layerSizes net \<noteq> []"
    and inp: "length inputs = layerSizes net ! 0"
  shows "m \<le> length (weights net) \<Longrightarrow>
         \<exists>vs ps. foldE forward_layer [0..<m]
                   (net\<lparr>values' := (values' net)[0 := inputs],
                        preActivations := (preActivations net)[0 := inputs]\<rparr>) =
                 Inr (net\<lparr>values' := vs, preActivations := ps\<rparr>)
               \<and> length vs = length (layerSizes net) \<and> length ps = length (layerSizes net)
               \<and> (\<forall>l\<le>m. vs ! l = fst (layer_out net inputs l)
                          \<and> ps ! l = snd (layer_out net inputs l))"
proof (induction m)
  case 0
  from wf ne show ?case
    by (intro exI [of _ "(values' net)[0 := inputs]"] exI [of _ "(preActivations net)[0 := inputs]"])
      (auto simp: wf_net_def)
next
  case (Suc m)
  then obtain vs ps where st: "foldE forward_layer [0..<m]
        (net\<lparr>values' := (values' net)[0 := inputs], preActivations := (preActivations net)[0 := inputs]\<rparr>)
        = Inr (net\<lparr>values' := vs, preActivations := ps\<rparr>)"
    and len: "length vs = length (layerSizes net)" "length ps = length (layerSizes net)"
    and val: "\<forall>l\<le>m. vs ! l = fst (layer_out net inputs l) \<and> ps ! l = snd (layer_out net inputs l)"
    by auto
  have m: "m < length (weights net)" using Suc.prems by simp
  with wf have mL: "Suc m < length (layerSizes net)" by (auto simp: wf_net_def)
  have prev: "vs ! m = fst (layer_out net inputs m)" "length (vs ! m) = layerSizes net ! m"
    using val length_layer_out [OF inp, of m] by auto
  note step = forward_layer_ok [OF wf m len prev]
  let ?vs = "vs[Suc m := fst (layer_out net inputs (Suc m))]"
  let ?ps = "ps[Suc m := snd (layer_out net inputs (Suc m))]"
  have "\<forall>l\<le>Suc m. ?vs ! l = fst (layer_out net inputs l) \<and> ?ps ! l = snd (layer_out net inputs l)"
    using val len mL by (auto simp: nth_list_update le_Suc_eq)
  moreover have "foldE forward_layer [0..<Suc m]
        (net\<lparr>values' := (values' net)[0 := inputs], preActivations := (preActivations net)[0 := inputs]\<rparr>)
        = Inr (net\<lparr>values' := ?vs, preActivations := ?ps\<rparr>)"
    using st step by (simp add: foldE_append del: layer_out.simps)
  ultimately show ?case
    using len by (intro exI [of _ ?vs] exI [of _ ?ps]) simp
qed

lemma forward_closed_form:
  assumes wf: "wf_net net" and ne: "layerSizes net \<noteq> []"
    and inp: "length inputs = layerSizes net ! 0"
  shows "forward net inputs =
         Inr (fst (layer_out net inputs (length (layerSizes net) - 1)), forward_result net inputs)"
proof -
  from wf ne have lens: "0 < length (values' net)" "0 < length (preActivations net)"
    "length (weights net) = length (layerSizes net) - 1"
    by (auto simp: wf_net_def)
  obtain vs ps where st: "foldE forward_layer [0..<length (weights net)]
        (net\<lparr>values' := (values' net)[0 := inputs], preActivations := (preActivations net)[0 := inputs]\<rparr>)
        = Inr (net\<lparr>values' := vs, preActivations := ps\<rparr>)"
    and len: "length vs = length (layerSizes net)" "length ps = length (layerSizes net)"
    and val: "\<forall>l\<le>length (weights net). vs ! l = fst (layer_out net inputs l)
                \<and> ps ! l = snd (layer_out net inputs l)"
    using forward_loop [OF wf ne inp, of "length (weights net)"] by auto
  have vs: "vs = map (\<lambda>l. fst (layer_out net inputs l)) [0..<length (layerSizes net)]"
    using len val lens by (intro nth_equalityI) auto
  have ps: "ps = map (\<lambda>l. snd (layer_out net inputs l)) [0..<length (layerSizes net)]"
    using len val lens by (intro nth_equalityI) auto
  from len ne have "vs \<noteq> []" by auto
  then have "last vs = fst (layer_out net inputs (length (layerSizes net) - 1))"
    using len val lens by (simp add: last_conv_nth)
  then show ?thesis
    using st lens vs ps by (simp add: forward_def arr_set_def forward_result_def del: layer_out.simps)
qed


lemma act_func_finite: "isFinite (act_func key (Fin x))"
proof (cases key)
  case SIGMOID
  have "1 + exp (- x) \<noteq> 0"
    using exp_gt_zero [of "- x"] by linarith
  with SIGMOID show ?thesis by simp
qed (simp_all add: js_max_def js_sub_def)

lemma zero_if_nonfinite_Fin: "\<exists>x. zero_if_nonfinite s = Fin x"
  by (cases s) (simp_all add: zero_if_nonfinite_def)

lemma pre_act_Fin: "\<exists>x. pre_act net l prev j = Fin x"
  unfolding pre_act_def by (rule zero_if_nonfinite_Fin)

lemma layer_out_Suc_finite:
  assumes "v \<in> set (fst (layer_out net inputs (Suc l)))"
  shows "isFinite v"
proof -
  from assms obtain j where "v = act_func (activations net ! Suc l) (pre_act net l (fst (layer_out net inputs l)) j)"
    by (auto simp: Let_def)
  then show ?thesis
    using pre_act_Fin [of net l "fst (layer_out net inputs l)" j] act_func_finite by auto
qed

lemma layer_out_frame:
  "layer_out (net\<lparr>values' := vs, preActivations := ps\<rparr>) inputs l = layer_out net inputs l"
  by (induction l) (simp_all add: pre_act_def Let_def)

lemma wf_net_forward_result:
  "wf_net net \<Longrightarrow> wf_net (forward_result net inputs)"
  by (simp add: wf_net_def forward_result_def)

lemma forward_result_idem:
  "forward_result (forward_result net inputs) inputs = forward_result net inputs"
  by (simp add: forward_result_def layer_out_frame del: layer_out.simps)

text \<open>
  C3. For a network of at least two layers and an input of the input layer's size,
  \<open>forward\<close> returns normally; it changes nothing but the value and pre-activation
  caches; the pre-activation of every unit of every later layer is the weighted sum of the
  previous layer's values plus the unit's bias, with a non-finite sum replaced by 0; the
  unit's value is the layer's activation function of that pre-activation; and the vector
  returned is the last layer's, of the output layer's size and finite throughout.
\<close>

theorem forward_spec:
  assumes "wf_net net" and "2 \<le> length (layerSizes net)"
    and "length inputs = layerSizes net ! 0"
  shows "\<exists>out vs ps.
           forward net inputs = Inr (out, net\<lparr>values' := vs, preActivations := ps\<rparr>)
         \<and> length vs = length (layerSizes net) \<and> length ps = length (layerSizes net)
         \<and> vs ! 0 = inputs \<and> ps ! 0 = inputs
         \<and> (\<forall>l<length (layerSizes net) - 1.
               length (ps ! Suc l) = layerSizes net ! Suc l
             \<and> length (vs ! Suc l) = layerSizes net ! Suc l
             \<and> (\<forall>j<layerSizes net ! Suc l.
                   ps ! Suc l ! j =
                     zero_if_nonfinite
                       (js_add (weighted_sum (vs ! l) (weights net ! l) j) (biases net ! l ! j))
                 \<and> vs ! Suc l ! j = act_func (activations net ! Suc l) (ps ! Suc l ! j)))
         \<and> out = vs ! (length (layerSizes net) - 1)
         \<and> length out = layerSizes net ! (length (layerSizes net) - 1)
         \<and> (\<forall>v\<in>set out. isFinite v)"
proof -
  let ?L = "length (layerSizes net)"
  let ?vs = "map (\<lambda>l. fst (layer_out net inputs l)) [0..<?L]"
  let ?ps = "map (\<lambda>l. snd (layer_out net inputs l)) [0..<?L]"
  let ?out = "fst (layer_out net inputs (?L - 1))"
  from assms(2) have ne: "layerSizes net \<noteq> []" by auto
  have fw: "forward net inputs = Inr (?out, net\<lparr>values' := ?vs, preActivations := ?ps\<rparr>)"
    using forward_closed_form [OF assms(1) ne assms(3)] by (simp add: forward_result_def)
  obtain m where m: "?L - 1 = Suc m"
    using assms(2) by (cases "?L - 1") auto
  have fin: "\<forall>v\<in>set ?out. isFinite v"
    unfolding m using layer_out_Suc_finite by blast
  have len: "length ?out = layerSizes net ! (?L - 1)"
    unfolding m by (simp add: Let_def)
  have layers: "\<forall>l<?L - 1.
               length (?ps ! Suc l) = layerSizes net ! Suc l
             \<and> length (?vs ! Suc l) = layerSizes net ! Suc l
             \<and> (\<forall>j<layerSizes net ! Suc l.
                   ?ps ! Suc l ! j =
                     zero_if_nonfinite
                       (js_add (weighted_sum (?vs ! l) (weights net ! l) j) (biases net ! l ! j))
                 \<and> ?vs ! Suc l ! j = act_func (activations net ! Suc l) (?ps ! Suc l ! j))"
    by (auto simp: Let_def pre_act_def)
  have zero: "?vs ! 0 = inputs" "?ps ! 0 = inputs" "?out = ?vs ! (?L - 1)"
    using ne by simp_all
  have lens: "length ?vs = ?L" "length ?ps = ?L"
    by simp_all
  show ?thesis
    apply (rule exI [of _ ?out], rule exI [of _ ?vs], rule exI [of _ ?ps])
    apply (intro conjI)
    using fw lens zero layers len fin by blast+
qed

text \<open>
  C8. \<open>forward\<close> is idempotent: called again on the network the first call left, with
  the same input, it returns the same vector and leaves the network as it is.
\<close>

theorem forward_idempotent:
  assumes "wf_net net" and "layerSizes net \<noteq> []"
    and "length inputs = layerSizes net ! 0"
  shows "\<exists>out net'. forward net inputs = Inr (out, net') \<and> forward net' inputs = Inr (out, net')"
proof -
  let ?n = "forward_result net inputs"
  let ?out = "fst (layer_out net inputs (length (layerSizes net) - 1))"
  have 1: "forward net inputs = Inr (?out, ?n)"
    by (rule forward_closed_form [OF assms])
  have wf': "wf_net ?n" by (rule wf_net_forward_result [OF assms(1)])
  have same: "layerSizes ?n = layerSizes net" by (simp add: forward_result_def)
  have "forward ?n inputs = Inr (fst (layer_out ?n inputs (length (layerSizes ?n) - 1)),
                                 forward_result ?n inputs)"
    using assms(2,3) by (intro forward_closed_form [OF wf']) (simp_all add: same)
  then have 2: "forward ?n inputs = Inr (?out, ?n)"
    by (simp add: forward_result_idem same) (simp add: forward_result_def layer_out_frame del: layer_out.simps)
  from 1 2 show ?thesis by blast
qed

lemma wf_example_net: "wf_net example_net"
  by (simp add: wf_net_def example_net_def All_less_Suc)

theorem forward_spec_witness:
  "wf_net example_net \<and> 2 \<le> length (layerSizes example_net)
   \<and> length [Fin 1] = layerSizes example_net ! 0
   \<and> (\<exists>out vs ps.
         forward example_net [Fin 1] = Inr (out, example_net\<lparr>values' := vs, preActivations := ps\<rparr>)
       \<and> out = vs ! (length (layerSizes example_net) - 1)
       \<and> length out = layerSizes example_net ! (length (layerSizes example_net) - 1)
       \<and> (\<forall>v\<in>set out. isFinite v))"
proof -
  have h: "2 \<le> length (layerSizes example_net)" "length [Fin 1] = layerSizes example_net ! 0"
    by (simp_all add: example_net_def)
  from forward_spec [OF wf_example_net h] show ?thesis
    using wf_example_net h by blast
qed

theorem forward_idempotent_witness:
  "wf_net example_net \<and> layerSizes example_net \<noteq> []
   \<and> length [Fin 1] = layerSizes example_net ! 0
   \<and> (\<exists>out net'. forward example_net [Fin 1] = Inr (out, net')
                 \<and> forward net' [Fin 1] = Inr (out, net'))"
proof -
  have h: "layerSizes example_net \<noteq> []" "length [Fin 1] = layerSizes example_net ! 0"
    by (simp_all add: example_net_def)
  from forward_idempotent [OF wf_example_net h] show ?thesis
    using wf_example_net h by blast
qed

theorem setLayerBias_out_of_range_noop_witness:
  "length (biases example_net) = length (layerSizes example_net) - 1
   \<and> \<not> (1 \<le> (3::int) \<and> (3::int) \<le> int (length (layerSizes example_net)) - 1)
   \<and> setLayerBias example_net 3 (Fin (1 / 2)) = example_net"
proof -
  have h: "length (biases example_net) = length (layerSizes example_net) - 1"
    "\<not> (1 \<le> (3::int) \<and> (3::int) \<le> int (length (layerSizes example_net)) - 1)"
    by (simp_all add: example_net_def)
  from setLayerBias_out_of_range_noop [OF h] show ?thesis
    using h by blast
qed

section \<open>Training\<close>

lemma foldE_inv:
  assumes "I s" and "\<And>x s. x \<in> set xs \<Longrightarrow> I s \<Longrightarrow> \<exists>s'. f x s = Inr s' \<and> I s'"
  shows "\<exists>s'. foldE f xs s = Inr s' \<and> I s'"
  using assms
proof (induction xs arbitrary: s)
  case Nil
  then show ?case by simp
next
  case (Cons x xs)
  from Cons.prems obtain s1 where s1: "f x s = Inr s1" "I s1"
    by (meson list.set_intros(1))
  have "\<exists>s'. foldE f xs s1 = Inr s' \<and> I s'"
    using s1(2) Cons.prems(2) by (intro Cons.IH) auto
  with s1 show ?case by simp
qed

lemma upd_inv_refl: "wf_net n \<Longrightarrow> upd_inv n i n"
  by (simp add: upd_inv_def)

lemma weight_step_inv:
  assumes inv: "upd_inv n0 i s" and i: "i < length (weights s)"
    and k: "k < layerSizes s ! i" and j: "j < layerSizes s ! Suc i"
  shows "\<exists>s'. weight_step i lr (Some errs) cv k j s = Inr s' \<and> upd_inv n0 i s'"
proof (cases "isFinite (js_mul (num_at errs j) (num_at cv k))")
  case False
  with inv show ?thesis by (simp add: weight_step_def)
next
  case True
  from inv have wf: "wf_net s" by (simp add: upd_inv_def)
  from wf i k j have rng: "k < length (weights s ! i)" "i < length (weightDeltas s)"
    "k < length (weightDeltas s ! i)" "j < length (weights s ! i ! k)"
    "j < length (weightDeltas s ! i ! k)"
    by (auto simp: wf_net_def)
  let ?d = "clip (js_mul lr (js_mul (num_at errs j) (num_at cv k)))"
  let ?s' = "s\<lparr>weights := (weights s)[i := (weights s ! i)[k :=
                 (weights s ! i ! k)[j := js_add (weights s ! i ! k ! j) ?d]]],
               weightDeltas := (weightDeltas s)[i := (weightDeltas s ! i)[k :=
                 (weightDeltas s ! i ! k)[j := ?d]]]\<rparr>"
  have step: "weight_step i lr (Some errs) cv k j s = Inr ?s'"
    using True rng by (simp add: weight_step_def num_set_def num_at_def Let_def)
  have "wf_net ?s'"
    using wf i k by (auto simp: wf_net_def nth_list_update)
  with inv have "upd_inv n0 i ?s'"
    by (simp add: upd_inv_def)
  with step show ?thesis by blast
qed

lemma bias_step_inv:
  assumes inv: "upd_inv n0 i s" and i: "i < length (weights s)"
    and j: "j < layerSizes s ! Suc i"
  shows "\<exists>s'. bias_step i lr (Some errs) j s = Inr s' \<and> upd_inv n0 i s'"
proof -
  from inv have wf: "wf_net s" by (simp add: upd_inv_def)
  from wf i j have rng: "i < length (biases s)" "j < length (biases s ! i)"
    by (auto simp: wf_net_def)
  let ?s' = "s\<lparr>biases := (biases s)[i := (biases s ! i)[j :=
                 js_add (biases s ! i ! j) (clip (js_mul lr (num_at errs j)))]]\<rparr>"
  have step: "bias_step i lr (Some errs) j s = Inr ?s'"
    using rng by (simp add: bias_step_def num_set_def num_at_def)
  have "wf_net ?s'"
    using wf i by (auto simp: wf_net_def nth_list_update)
  with inv have "upd_inv n0 i ?s'"
    by (simp add: upd_inv_def)
  with step show ?thesis by blast
qed

lemma err_sum_loop:
  assumes "k < length (weights n ! i)" "m \<le> length errs" "m \<le> length (weights n ! i ! k)"
  shows "foldE (err_sum_step n i (Some errs) k) [0..<m] acc =
         Inr (foldl (\<lambda>acc j. js_add acc (js_mul (errs ! j) (weights n ! i ! k ! j))) acc [0..<m])"
  using assms(2,3)
proof (induction m)
  case 0
  then show ?case by simp
next
  case (Suc m)
  with assms(1) show ?case
    by (simp add: foldE_append err_sum_step_def num_at_def)
qed

lemma error_unit_loop:
  assumes "m \<le> length (weights n ! i)" "m \<le> length cv"
    and "size_at (layerSizes n) (Suc i) = length errs"
    and "\<forall>k<m. length (weights n ! i ! k) = length errs"
  shows "foldE (error_unit n i (Some errs) cv) [0..<m] acc =
         Inr (acc @ map (\<lambda>k. js_mul (zero_if_nonfinite (backprop_sum errs (weights n ! i ! k)))
                                  (act_deriv (activations n ! i) (cv ! k))) [0..<m])"
  using assms(1,2,4)
proof (induction m)
  case 0
  then show ?case by simp
next
  case (Suc m)
  have "foldE (err_sum_step n i (Some errs) m) [0..<length errs] (Fin 0)
        = Inr (backprop_sum errs (weights n ! i ! m))"
    unfolding backprop_sum_def using Suc.prems by (intro err_sum_loop) auto
  with Suc assms(3) show ?case
    by (simp add: foldE_append error_unit_def zero_if_nonfinite_def num_at_def Let_def)
qed


lemma weight_loops_inv:
  assumes wf: "wf_net n" and i: "i < length (weights n)"
  shows "\<exists>s'. foldE (\<lambda>k. foldE (weight_step i lr (Some errs) cv k) [0..<layerSizes n ! Suc i])
                 [0..<layerSizes n ! i] n = Inr s' \<and> upd_inv n i s'"
proof (rule foldE_inv [where I = "upd_inv n i"])
  show "upd_inv n i n" by (rule upd_inv_refl [OF wf])
next
  fix k s
  assume k: "k \<in> set [0..<layerSizes n ! i]" and s: "upd_inv n i s"
  show "\<exists>s'. foldE (weight_step i lr (Some errs) cv k) [0..<layerSizes n ! Suc i] s = Inr s'
             \<and> upd_inv n i s'"
  proof (rule foldE_inv [where I = "upd_inv n i"])
    show "upd_inv n i s" by (rule s)
  next
    fix j t
    assume j: "j \<in> set [0..<layerSizes n ! Suc i]" and t: "upd_inv n i t"
    from t wf i have "i < length (weights t)" "layerSizes t = layerSizes n"
      by (auto simp: upd_inv_def wf_net_def)
    with k j t show "\<exists>s'. weight_step i lr (Some errs) cv k j t = Inr s' \<and> upd_inv n i s'"
      by (intro weight_step_inv) auto
  qed
qed

lemma bias_loop_inv:
  assumes wf: "wf_net n" and i: "i < length (weights n)" and s: "upd_inv n i s"
  shows "\<exists>s'. foldE (bias_step i lr (Some errs)) [0..<layerSizes n ! Suc i] s = Inr s'
             \<and> upd_inv n i s'"
proof (rule foldE_inv [where I = "upd_inv n i"])
  show "upd_inv n i s" by (rule s)
next
  fix j t
  assume j: "j \<in> set [0..<layerSizes n ! Suc i]" and t: "upd_inv n i t"
  from t wf i have "i < length (weights t)" "layerSizes t = layerSizes n"
    by (auto simp: upd_inv_def wf_net_def)
  with j t show "\<exists>s'. bias_step i lr (Some errs) j t = Inr s' \<and> upd_inv n i s'"
    by (intro bias_step_inv) auto
qed

lemma train_layer_ok:
  assumes wf: "wf_net n" and i: "i < length (weights n)"
    and E: "E (Suc i) = Some errs" and len: "length errs = layerSizes n ! Suc i"
    and vlen: "length (values' n ! i) = layerSizes n ! i"
  shows "\<exists>n'. train_layer lr i (n, E) =
                 Inr (n', if 0 < i then E(i \<mapsto> hidden_errors n' i errs) else E)
             \<and> upd_inv n i n'"
proof -
  from wf i have L: "Suc i < length (layerSizes n)" "i < length (activations n)"
    by (auto simp: wf_net_def)
  then have sz: "size_at (layerSizes n) i = layerSizes n ! i"
    "size_at (layerSizes n) (Suc i) = layerSizes n ! Suc i"
    by (simp_all add: size_at_def)
  obtain n1 where n1: "foldE (\<lambda>k. foldE (weight_step i lr (Some errs) (values' n ! i) k)
                                  [0..<layerSizes n ! Suc i]) [0..<layerSizes n ! i] n = Inr n1"
    "upd_inv n i n1"
    using weight_loops_inv [OF wf i] by blast
  obtain n2 where n2: "foldE (bias_step i lr (Some errs)) [0..<layerSizes n ! Suc i] n1 = Inr n2"
    "upd_inv n i n2"
    using bias_loop_inv [OF wf i n1(2)] by blast
  from n2(2) have fr: "wf_net n2" "layerSizes n2 = layerSizes n" "activations n2 = activations n"
    "values' n2 = values' n"
    by (simp_all add: upd_inv_def)
  from fr(1,2) wf i have sh: "length (weights n2 ! i) = layerSizes n ! i"
    "\<forall>k<layerSizes n ! i. length (weights n2 ! i ! k) = layerSizes n ! Suc i"
    by (auto simp: wf_net_def)
  have "foldE (error_unit n2 i (Some errs) (values' n ! i)) [0..<layerSizes n ! i] [] =
        Inr ([] @ map (\<lambda>k. js_mul (zero_if_nonfinite (backprop_sum errs (weights n2 ! i ! k)))
                                 (act_deriv (activations n2 ! i) (values' n ! i ! k)))
                     [0..<layerSizes n ! i])"
    using sh vlen len fr(2) sz by (intro error_unit_loop) auto
  then have er: "foldE (error_unit n2 i (Some errs) (values' n ! i)) [0..<layerSizes n ! i] [] =
        Inr (hidden_errors n2 i errs)"
    by (simp add: hidden_errors_def fr)
  have "train_layer lr i (n, E) = Inr (n2, if 0 < i then E(i \<mapsto> hidden_errors n2 i errs) else E)"
    using L E sz n1(1) n2(1) er by (simp add: train_layer_def Let_def)
  with n2(2) show ?thesis by blast
qed


lemma hidden_errors_cong:
  assumes "weights a ! k = weights b ! k" "activations a = activations b"
    "values' a = values' b" "layerSizes a = layerSizes b"
  shows "hidden_errors a k e = hidden_errors b k e"
  using assms by (simp add: hidden_errors_def)

lemma train_loop:
  assumes "m \<le> length (weights n)" and "wf_net n"
    and "\<forall>l<length (layerSizes n). length (values' n ! l) = layerSizes n ! l"
    and "0 < m \<longrightarrow> (\<exists>errs. E m = Some errs \<and> length errs = layerSizes n ! m)"
  shows "\<exists>n' E'. foldE (train_layer lr) (rev [0..<m]) (n, E) = Inr (n', E')
           \<and> wf_net n' \<and> layerSizes n' = layerSizes n \<and> activations n' = activations n
           \<and> values' n' = values' n \<and> preActivations n' = preActivations n
           \<and> (\<forall>l\<ge>m. weights n' ! l = weights n ! l)
           \<and> (\<forall>l\<ge>m. E' l = E l)
           \<and> (\<forall>k. 0 < k \<and> k < m \<longrightarrow>
                 (\<exists>e. E' (Suc k) = Some e \<and> E' k = Some (hidden_errors n' k e)))"
  using assms
proof (induction m arbitrary: n E)
  case 0
  then show ?case by simp
next
  case (Suc m)
  from Suc.prems obtain errs where errs: "E (Suc m) = Some errs"
    "length errs = layerSizes n ! Suc m"
    by auto
  have m: "m < length (weights n)" using Suc.prems(1) by simp
  with Suc.prems(2) have mL: "m < length (layerSizes n)" by (auto simp: wf_net_def)
  with Suc.prems(3) have vlen: "length (values' n ! m) = layerSizes n ! m" by simp
  obtain n1 where n1: "train_layer lr m (n, E) =
        Inr (n1, if 0 < m then E(m \<mapsto> hidden_errors n1 m errs) else E)"
    and inv1: "upd_inv n m n1"
    using train_layer_ok [of n m E errs lr, OF Suc.prems(2) m errs vlen] by blast
  let ?E1 = "if 0 < m then E(m \<mapsto> hidden_errors n1 m errs) else E"
  from inv1 have fr1: "wf_net n1" "layerSizes n1 = layerSizes n" "activations n1 = activations n"
    "values' n1 = values' n" "preActivations n1 = preActivations n"
    "\<forall>l. l \<noteq> m \<longrightarrow> weights n1 ! l = weights n ! l"
    by (simp_all add: upd_inv_def)
  from fr1(1,2) Suc.prems(2) have lw: "length (weights n1) = length (weights n)"
    by (simp add: wf_net_def)
  have p4: "0 < m \<longrightarrow> (\<exists>e. ?E1 m = Some e \<and> length e = layerSizes n1 ! m)"
    by (simp add: hidden_errors_def fr1)
  have "\<exists>n' E'. foldE (train_layer lr) (rev [0..<m]) (n1, ?E1) = Inr (n', E')
           \<and> wf_net n' \<and> layerSizes n' = layerSizes n1 \<and> activations n' = activations n1
           \<and> values' n' = values' n1 \<and> preActivations n' = preActivations n1
           \<and> (\<forall>l\<ge>m. weights n' ! l = weights n1 ! l)
           \<and> (\<forall>l\<ge>m. E' l = ?E1 l)
           \<and> (\<forall>k. 0 < k \<and> k < m \<longrightarrow>
                 (\<exists>e. E' (Suc k) = Some e \<and> E' k = Some (hidden_errors n' k e)))"
    using m lw fr1 Suc.prems(3) p4 by (intro Suc.IH) simp_all
  then obtain n' E' where run: "foldE (train_layer lr) (rev [0..<m]) (n1, ?E1) = Inr (n', E')"
    and fr': "wf_net n'" "layerSizes n' = layerSizes n1" "activations n' = activations n1"
      "values' n' = values' n1" "preActivations n' = preActivations n1"
    and w': "\<forall>l\<ge>m. weights n' ! l = weights n1 ! l"
    and E': "\<forall>l\<ge>m. E' l = ?E1 l"
    and hid: "\<forall>k. 0 < k \<and> k < m \<longrightarrow>
                 (\<exists>e. E' (Suc k) = Some e \<and> E' k = Some (hidden_errors n' k e))"
    by blast
  have total: "foldE (train_layer lr) (rev [0..<Suc m]) (n, E) = Inr (n', E')"
    using n1 run by simp
  have wS: "\<forall>l\<ge>Suc m. weights n' ! l = weights n ! l"
    using w' fr1(6) by auto
  have ES: "\<forall>l\<ge>Suc m. E' l = E l"
    using E' by auto
  have hidS: "\<forall>k. 0 < k \<and> k < Suc m \<longrightarrow>
                 (\<exists>e. E' (Suc k) = Some e \<and> E' k = Some (hidden_errors n' k e))"
  proof (intro allI impI)
    fix k assume k: "0 < k \<and> k < Suc m"
    show "\<exists>e. E' (Suc k) = Some e \<and> E' k = Some (hidden_errors n' k e)"
    proof (cases "k = m")
      case False
      with k hid show ?thesis by simp
    next
      case True
      with k have "0 < m" by simp
      then have "E' m = Some (hidden_errors n1 m errs)" using E' by simp
      moreover have "hidden_errors n1 m errs = hidden_errors n' m errs"
        using w' fr' by (intro hidden_errors_cong) simp_all
      moreover have "E' (Suc m) = Some errs" using ES errs by simp
      ultimately show ?thesis using True by simp
    qed
  qed
  show ?case
    apply (rule exI [of _ n'], rule exI [of _ E'])
    using total fr' fr1 wS ES hidS by simp
qed


lemma output_errors_nth:
  assumes "length targets = length outputs"
  shows "output_errors key targets outputs =
         map (\<lambda>u. js_mul (js_sub (targets ! u) (outputs ! u)) (act_deriv key (outputs ! u)))
             [0..<length outputs]"
  using assms by (simp add: output_errors_def num_at_def)

lemma train_errors_run:
  assumes wf: "wf_net net" and ne: "layerSizes net \<noteq> []"
    and inp: "length inputs = layerSizes net ! 0"
  shows "\<exists>net' E.
           train_errors net inputs targets lr = Inr (net', E)
         \<and> wf_net net' \<and> layerSizes net' = layerSizes net \<and> activations net' = activations net
         \<and> values' net' = values' (forward_result net inputs)
         \<and> E (length (layerSizes net) - 1) =
             Some (output_errors (activations net ! (length (layerSizes net) - 1)) targets
                     (fst (layer_out net inputs (length (layerSizes net) - 1))))
         \<and> (\<forall>k. 0 < k \<and> k < length (layerSizes net) - 1 \<longrightarrow>
               (\<exists>e. E (Suc k) = Some e \<and> E k = Some (hidden_errors net' k e)))"
proof -
  let ?L = "length (layerSizes net)"
  let ?n1 = "forward_result net inputs"
  let ?out = "fst (layer_out net inputs (?L - 1))"
  let ?oe = "output_errors (activations net ! (?L - 1)) targets ?out"
  have fw: "forward net inputs = Inr (?out, ?n1)"
    by (rule forward_closed_form [OF wf ne inp])
  have wf1: "wf_net ?n1" by (rule wf_net_forward_result [OF wf])
  have fr: "layerSizes ?n1 = layerSizes net" "activations ?n1 = activations net"
    "weights ?n1 = weights net"
    by (simp_all add: forward_result_def)
  have vals: "\<forall>l<length (layerSizes ?n1). length (values' ?n1 ! l) = layerSizes ?n1 ! l"
    using length_layer_out [OF inp] by (simp add: forward_result_def del: layer_out.simps)
  from wf ne have lw: "length (weights net) = ?L - 1" "?L - 1 < length (activations net)"
    "?L - 1 < ?L"
    by (cases "layerSizes net"; simp add: wf_net_def)+
  have outv: "values' ?n1 ! (?L - 1) = ?out"
    using lw(3) by (simp add: forward_result_def del: layer_out.simps)
  have lout: "length ?oe = layerSizes net ! (?L - 1)"
    using length_layer_out [OF inp, of "?L - 1"] by (simp add: output_errors_def)
  have start: "train_errors net inputs targets lr =
        foldE (train_layer lr) (rev [0..<?L - 1]) (?n1, [?L - 1 \<mapsto> ?oe])"
    using fw ne lw outv fr
    by (simp add: train_errors_def Let_def forward_result_def del: layer_out.simps)
  have "\<exists>n' E'. foldE (train_layer lr) (rev [0..<?L - 1]) (?n1, [?L - 1 \<mapsto> ?oe]) = Inr (n', E')
           \<and> wf_net n' \<and> layerSizes n' = layerSizes ?n1 \<and> activations n' = activations ?n1
           \<and> values' n' = values' ?n1 \<and> preActivations n' = preActivations ?n1
           \<and> (\<forall>l\<ge>?L - 1. weights n' ! l = weights ?n1 ! l)
           \<and> (\<forall>l\<ge>?L - 1. E' l = [?L - 1 \<mapsto> ?oe] l)
           \<and> (\<forall>k. 0 < k \<and> k < ?L - 1 \<longrightarrow>
                 (\<exists>e. E' (Suc k) = Some e \<and> E' k = Some (hidden_errors n' k e)))"
    using wf1 vals lw fr lout by (intro train_loop) simp_all
  then obtain n' E' where run: "foldE (train_layer lr) (rev [0..<?L - 1]) (?n1, [?L - 1 \<mapsto> ?oe]) = Inr (n', E')"
    and fr': "wf_net n'" "layerSizes n' = layerSizes ?n1" "activations n' = activations ?n1"
    and v: "values' n' = values' ?n1"
    and E0: "\<forall>l\<ge>?L - 1. E' l = [?L - 1 \<mapsto> ?oe] l"
    and hid: "\<forall>k. 0 < k \<and> k < ?L - 1 \<longrightarrow>
                 (\<exists>e. E' (Suc k) = Some e \<and> E' k = Some (hidden_errors n' k e))"
    by blast
  from E0 have "E' (?L - 1) = Some ?oe" by simp
  with start run fr' fr v hid show ?thesis
    by (intro exI [of _ n'] exI [of _ E']) simp
qed

text \<open>\<open>train\<close> returns on a well-shaped network and keeps its shape.\<close>

lemma train_ok:
  assumes "wf_net net" and "layerSizes net \<noteq> []"
    and "length inputs = layerSizes net ! 0"
  shows "\<exists>net'. train net inputs targets lr = Inr net' \<and> wf_net net'
              \<and> layerSizes net' = layerSizes net"
  using train_errors_run [OF assms, of targets lr] by (auto simp: train_def)

lemmas train_unfold =
  forward_def forward_layer_def forward_unit_def sum_step_def arr_set_def size_at_def num_at_def
  num_set_def js_max_def js_min_def js_sub_def clip_def train_errors_def train_layer_def
  weight_step_def bias_step_def err_sum_step_def error_unit_def output_errors_def Let_def upt_rec

text \<open>
  C1 at an input where the code departs from it. Train the example network (both weights
  1, both biases 0, LeakyReLU) on input 1 with target 2 at learning rate 1/2. The forward
  pass gives the value 1 in every layer and the output error is 1, so the formula of the
  claim, over the weights of the forward pass, gives the hidden error 1. The code raises
  the weight into the output unit from 1 to 3/2 first and computes the hidden error from
  the raised weight: 3/2. The call therefore leaves the first weight at 7/4 and the hidden
  bias at 3/4, where the hidden error 1 leaves them at 3/2 and 1/2.
\<close>

theorem train_hidden_error_from_updated_weight:
  "layer_errors_of (train_errors example_net [Fin 1] [Fin 2] (Fin (1 / 2))) 2 = Some [Fin 1]
   \<and> layer_errors_of (train_errors example_net [Fin 1] [Fin 2] (Fin (1 / 2))) 1 = Some [Fin (3 / 2)]
   \<and> claimed_hidden_errors (forward_result example_net [Fin 1]) 1 [Fin 1] = [Fin 1]
   \<and> train example_net [Fin 1] [Fin 2] (Fin (1 / 2)) =
       Inr (example_net\<lparr>weights := [[[Fin (7 / 4)]], [[Fin (3 / 2)]]],
                        weightDeltas := [[[Fin (3 / 4)]], [[Fin (1 / 2)]]],
                        biases := [[Fin (3 / 4)], [Fin (1 / 2)]],
                        values' := [[Fin 1], [Fin 1], [Fin 1]],
                        preActivations := [[Fin 1], [Fin 1], [Fin 1]]\<rparr>)"
proof -
  have "layer_errors_of (train_errors example_net [Fin 1] [Fin 2] (Fin (1 / 2))) 2 = Some [Fin 1]"
    by (simp add: layer_errors_of_def example_net_def train_unfold)
  moreover
  have "layer_errors_of (train_errors example_net [Fin 1] [Fin 2] (Fin (1 / 2))) 1 = Some [Fin (3 / 2)]"
    by (simp add: layer_errors_of_def example_net_def train_unfold)
  moreover
  have "claimed_hidden_errors (forward_result example_net [Fin 1]) 1 [Fin 1] = [Fin 1]"
    by (simp add: claimed_hidden_errors_def forward_result_def example_net_def backprop_sum_def
        pre_act_def weighted_sum_def zero_if_nonfinite_def js_max_def Let_def upt_rec)
  moreover
  have "train example_net [Fin 1] [Fin 2] (Fin (1 / 2)) =
       Inr (example_net\<lparr>weights := [[[Fin (7 / 4)]], [[Fin (3 / 2)]]],
                        weightDeltas := [[[Fin (3 / 4)]], [[Fin (1 / 2)]]],
                        biases := [[Fin (3 / 4)], [Fin (1 / 2)]],
                        values' := [[Fin 1], [Fin 1], [Fin 1]],
                        preActivations := [[Fin 1], [Fin 1], [Fin 1]]\<rparr>)"
    by (simp add: train_def example_net_def train_unfold)
  ultimately show ?thesis by blast
qed

text \<open>
  C2 at a non-finite bias gradient. Train the example network on input 1 with the target
  \<open>NaN\<close> at learning rate 1/10. The output error, which is the gradient of the output
  unit's bias, is \<open>NaN\<close>. The weight into the output unit keeps its value 1 (its update
  is skipped), but the unit's bias, 0 before the call, is \<open>NaN\<close> after it: the bias update
  has no finiteness check. A target vector shorter than the output layer does the same,
  its missing entry being \<open>undefined\<close>.
\<close>

theorem train_bias_update_not_skipped:
  "layer_errors_of (train_errors example_net [Fin 1] [NaN] (Fin (1 / 10))) 2 = Some [NaN]
   \<and> train example_net [Fin 1] [NaN] (Fin (1 / 10)) =
       Inr (example_net\<lparr>biases := [[Fin 0], [NaN]],
                        values' := [[Fin 1], [Fin 1], [Fin 1]],
                        preActivations := [[Fin 1], [Fin 1], [Fin 1]]\<rparr>)
   \<and> train example_net [Fin 1] [] (Fin (1 / 10)) =
       Inr (example_net\<lparr>biases := [[Fin 0], [NaN]],
                        values' := [[Fin 1], [Fin 1], [Fin 1]],
                        preActivations := [[Fin 1], [Fin 1], [Fin 1]]\<rparr>)"
proof -
  have "layer_errors_of (train_errors example_net [Fin 1] [NaN] (Fin (1 / 10))) 2 = Some [NaN]"
    by (simp add: layer_errors_of_def example_net_def train_unfold)
  moreover
  have "train example_net [Fin 1] [NaN] (Fin (1 / 10)) =
       Inr (example_net\<lparr>biases := [[Fin 0], [NaN]],
                        values' := [[Fin 1], [Fin 1], [Fin 1]],
                        preActivations := [[Fin 1], [Fin 1], [Fin 1]]\<rparr>)"
    by (simp add: train_def example_net_def train_unfold)
  moreover
  have "train example_net [Fin 1] [] (Fin (1 / 10)) =
       Inr (example_net\<lparr>biases := [[Fin 0], [NaN]],
                        values' := [[Fin 1], [Fin 1], [Fin 1]],
                        preActivations := [[Fin 1], [Fin 1], [Fin 1]]\<rparr>)"
    by (simp add: train_def example_net_def train_unfold)
  ultimately show ?thesis by blast
qed

section \<open>The constructor\<close>

lemma construct_row_loop:
  "foldE (construct_row rnd c scale) [0..<p] (pos, W, D) =
   Inr (pos + p * c,
        W @ map (\<lambda>j. random_row rnd (pos + j * c) c (\<lambda>r. js_mul (Fin (r * 2 - 1)) scale)) [0..<p],
        D @ replicate p (replicate c (Fin 0)))"
proof (induction p)
  case 0
  then show ?case by simp
next
  case (Suc p)
  then show ?case
    by (simp add: foldE_append construct_row_def replicate_append_same add.commute)
qed

lemma construct_layer_bad:
  "\<not> valid_array_length (sizes ! i) \<Longrightarrow> construct_layer rnd sizes i st = Inl RangeError"
  by (cases st) (simp add: construct_layer_def)

lemma construct_layer_ok:
  assumes v: "valid_array_length (sizes ! m)" and inv: "cinv sizes acts m st"
  shows "\<exists>st'. construct_layer rnd sizes m st = Inr st' \<and> cinv sizes acts (Suc m) st'"
proof (cases st)
  case (Pair pos net)
  show ?thesis
  proof (cases "0 < m")
    case False
    with v inv Pair show ?thesis
      by (simp add: construct_layer_def cinv_def Let_def)
  next
    case True
    let ?p = "nat (sizes ! (m - 1))"
    let ?c = "nat (sizes ! m)"
    let ?W = "map (\<lambda>j. random_row rnd (pos + j * ?c) ?c
                          (\<lambda>r. js_mul (Fin (r * 2 - 1)) (js_div (Fin 1) (Fin (sqrt (real ?p))))))
                  [0..<?p]"
    let ?D = "replicate ?p (replicate ?c (Fin 0))"
    let ?B = "random_row rnd (pos + ?p * ?c) ?c (\<lambda>r. Fin (1 / 100 + r * (2 / 10)))"
    let ?net' = "net\<lparr>values' := values' net @ [replicate ?c (Fin 0)],
                      preActivations := preActivations net @ [replicate ?c (Fin 0)],
                      weights := weights net @ [?W],
                      weightDeltas := weightDeltas net @ [?D],
                      biases := biases net @ [?B]\<rparr>"
    have step: "construct_layer rnd sizes m st = Inr (pos + ?p * ?c + ?c, ?net')"
      using v True Pair by (simp add: construct_layer_def Let_def construct_row_loop)
    from inv Pair have old: "layerSizes net = map nat sizes" "activations net = acts"
      "length (values' net) = m" "length (preActivations net) = m"
      "length (weights net) = m - 1" "length (weightDeltas net) = m - 1"
      "length (biases net) = m - 1"
      and oldsh: "\<forall>i < m - 1.
              length (weights net ! i) = nat (sizes ! i)
            \<and> (\<forall>k < nat (sizes ! i). length (weights net ! i ! k) = nat (sizes ! (i + 1)))
            \<and> length (weightDeltas net ! i) = nat (sizes ! i)
            \<and> (\<forall>k < nat (sizes ! i). length (weightDeltas net ! i ! k) = nat (sizes ! (i + 1)))
            \<and> length (biases net ! i) = nat (sizes ! (i + 1))"
      by (simp_all add: cinv_def)
    have newsh: "length (weights ?net' ! i) = nat (sizes ! i)
            \<and> (\<forall>k < nat (sizes ! i). length (weights ?net' ! i ! k) = nat (sizes ! (i + 1)))
            \<and> length (weightDeltas ?net' ! i) = nat (sizes ! i)
            \<and> (\<forall>k < nat (sizes ! i). length (weightDeltas ?net' ! i ! k) = nat (sizes ! (i + 1)))
            \<and> length (biases ?net' ! i) = nat (sizes ! (i + 1))" if i: "i < m" for i
    proof (cases "i < m - 1")
      case True
      with oldsh old show ?thesis by (simp add: nth_append)
    next
      case False
      with i \<open>0 < m\<close> have "i = m - 1" "Suc i = m" by simp_all
      with old show ?thesis by (simp add: nth_append random_row_def)
    qed
    have "cinv sizes acts (Suc m) (pos + ?p * ?c + ?c, ?net')"
      unfolding cinv_def using old True newsh by simp
    with step show ?thesis by blast
  qed
qed

lemma foldE_upt_inv:
  assumes "I 0 s" and "\<And>m s. m < n \<Longrightarrow> I m s \<Longrightarrow> \<exists>s'. f m s = Inr s' \<and> I (Suc m) s'"
  shows "\<exists>s'. foldE f [0..<n] s = Inr s' \<and> I n s'"
  using assms(2)
proof (induction n)
  case 0
  with assms(1) show ?case by simp
next
  case (Suc n)
  then obtain s1 where s1: "foldE f [0..<n] s = Inr s1" "I n s1"
    by (metis less_Suc_eq)
  from Suc.prems [OF _ s1(2)] obtain s2 where "f n s1 = Inr s2" "I (Suc n) s2"
    by auto
  with s1 show ?case by (simp add: foldE_append)
qed

lemma foldE_fails:
  assumes "x \<in> set xs" and "\<And>s. f x s = Inl e"
    and "\<And>y s. y \<in> set xs \<Longrightarrow> (\<exists>s'. f y s = Inr s') \<or> f y s = Inl e"
  shows "foldE f xs s = Inl e"
  using assms(1,3)
proof (induction xs arbitrary: s)
  case Nil
  then show ?case by simp
next
  case (Cons y ys)
  show ?case
  proof (cases "f y s")
    case (Inl e')
    with Cons.prems(2) [of y s] show ?thesis by simp
  next
    case (Inr s')
    have "y \<noteq> x" using Inr assms(2) [of s] by auto
    with Cons.prems(1) have "x \<in> set ys" by simp
    then have "foldE f ys s' = Inl e"
      using Cons.prems(2) by (intro Cons.IH) auto
    with Inr show ?thesis by simp
  qed
qed

lemma construct_ok:
  assumes "\<forall>s\<in>set sizes. valid_array_length s"
  shows "\<exists>pos net. foldE (construct_layer rnd sizes) [0..<length sizes]
            (0, \<lparr>layerSizes = map nat sizes, activations = acts, weights = [],
                 weightDeltas = [], biases = [], values' = [], preActivations = []\<rparr>) = Inr (pos, net)
          \<and> cinv sizes acts (length sizes) (pos, net)"
proof -
  have "\<exists>s'. foldE (construct_layer rnd sizes) [0..<length sizes]
            (0, \<lparr>layerSizes = map nat sizes, activations = acts, weights = [],
                 weightDeltas = [], biases = [], values' = [], preActivations = []\<rparr>) = Inr s'
          \<and> cinv sizes acts (length sizes) s'"
  proof (rule foldE_upt_inv [where I = "cinv sizes acts"])
    show "cinv sizes acts 0 (0, \<lparr>layerSizes = map nat sizes, activations = acts, weights = [],
                 weightDeltas = [], biases = [], values' = [], preActivations = []\<rparr>)"
      by (simp add: cinv_def)
  next
    fix m s
    assume "m < length sizes" and "cinv sizes acts m s"
    then show "\<exists>s'. construct_layer rnd sizes m s = Inr s' \<and> cinv sizes acts (Suc m) s'"
      using assms by (intro construct_layer_ok) auto
  qed
  then show ?thesis by auto
qed

text \<open>
  With valid sizes and an activation key for every layer the constructor returns a
  well-shaped network.
\<close>

lemma construct_wf:
  assumes "\<forall>s\<in>set sizes. valid_array_length s" and "length sizes \<le> length acts"
  shows "\<exists>net. construct rnd sizes acts = Inr net \<and> wf_net net
             \<and> layerSizes net = map nat sizes \<and> activations net = acts"
proof -
  obtain pos net where run: "foldE (construct_layer rnd sizes) [0..<length sizes]
            (0, \<lparr>layerSizes = map nat sizes, activations = acts, weights = [],
                 weightDeltas = [], biases = [], values' = [], preActivations = []\<rparr>) = Inr (pos, net)"
    and inv: "cinv sizes acts (length sizes) (pos, net)"
    using construct_ok [OF assms(1)] by blast
  from inv assms(2) have "wf_net net"
    by (auto simp: cinv_def wf_net_def)
  with run inv show ?thesis
    by (simp add: construct_def cinv_def)
qed

text \<open>
  C4, as the code has it. The constructor validates nothing and knows no
  \<open>ConfigError\<close>: whenever every size is an array length (an integer from 0 up to
  \<open>2^32 - 1\<close>) it produces a network with one value vector per size, also for fewer
  than two sizes and for sizes equal to 0; otherwise the allocation of a vector throws a
  \<open>RangeError\<close>.
\<close>

theorem construct_never_validates:
  "(if \<forall>s\<in>set sizes. valid_array_length s
    then \<exists>net. construct rnd sizes acts = Inr net \<and> layerSizes net = map nat sizes
               \<and> length (values' net) = length sizes
    else construct rnd sizes acts = Inl RangeError)"
proof (cases "\<forall>s\<in>set sizes. valid_array_length s")
  case True
  from construct_ok [OF True, of rnd acts] obtain pos net where
    "foldE (construct_layer rnd sizes) [0..<length sizes]
            (0, \<lparr>layerSizes = map nat sizes, activations = acts, weights = [],
                 weightDeltas = [], biases = [], values' = [], preActivations = []\<rparr>) = Inr (pos, net)"
    "cinv sizes acts (length sizes) (pos, net)"
    by blast
  with True show ?thesis
    by (simp add: construct_def cinv_def)
next
  case False
  then obtain i where i: "i < length sizes" "\<not> valid_array_length (sizes ! i)"
    by (auto simp: in_set_conv_nth)
  have "foldE (construct_layer rnd sizes) [0..<length sizes] st = Inl RangeError" for st
  proof (rule foldE_fails [where x = i])
    show "i \<in> set [0..<length sizes]" using i by simp
  next
    fix s show "construct_layer rnd sizes i s = Inl RangeError"
      by (rule construct_layer_bad [OF i(2)])
  next
    fix y s
    show "(\<exists>s'. construct_layer rnd sizes y s = Inr s') \<or> construct_layer rnd sizes y s = Inl RangeError"
      by (cases s) (auto simp: construct_layer_def Let_def construct_row_loop split: sum.splits prod.splits)
  qed
  with False show ?thesis
    by (simp add: construct_def)
qed

theorem construct_never_validates_witness:
  "valid_array_length 1
   \<and> (\<exists>net. construct zero_rng [1] [SIGMOID] = Inr net \<and> layerSizes net = map nat [1]
             \<and> length (values' net) = length [1 :: int])
   \<and> \<not> valid_array_length (- 1)
   \<and> construct zero_rng [- 1] [SIGMOID] = Inl RangeError"
  using construct_never_validates [of "[1]" zero_rng "[SIGMOID]"]
    construct_never_validates [of "[- 1]" zero_rng "[SIGMOID]"]
  by (simp add: valid_array_length_def)

text \<open>
  C4 as the claim states it fails: with a single layer size, and with a size of 0, the
  constructor returns a network.
\<close>

theorem construct_invalid_sizes_counterexample:
  "construct zero_rng [1] [SIGMOID] =
     Inr \<lparr>layerSizes = [1], activations = [SIGMOID], weights = [], weightDeltas = [],
          biases = [], values' = [[Fin 0]], preActivations = [[Fin 0]]\<rparr>
   \<and> construct zero_rng [2, 0] [SIGMOID, SIGMOID] =
     Inr \<lparr>layerSizes = [2, 0], activations = [SIGMOID, SIGMOID], weights = [[[], []]],
          weightDeltas = [[[], []]], biases = [[]], values' = [[Fin 0, Fin 0], []],
          preActivations = [[Fin 0, Fin 0], []]\<rparr>"
  by (simp add: construct_def construct_layer_def construct_row_def random_row_def
      valid_array_length_def Let_def upt_rec numeral_2_eq_2)

section \<open>Turbo mode\<close>

lemma foldE_const_map: "foldE (\<lambda>k. f) (map g xs) s = foldE (\<lambda>k. f) xs s"
  by (induction xs arbitrary: s) (auto split: sum.splits)

lemma train_times_add:
  "train_times inputs target lr (a + b) net =
   (case train_times inputs target lr a net of
      Inl e \<Rightarrow> Inl e
    | Inr net' \<Rightarrow> train_times inputs target lr b net')"
proof -
  have 1: "[0..<a + b] = [0..<a] @ [a..<a + b]"
    by (rule upt_add_eq_append) simp
  have 2: "[a..<a + b] = map (\<lambda>i. i + a) [0..<b]"
    using map_add_upt [of a b] by (simp only: add.commute)
  have "[0..<a + b] = [0..<a] @ map (\<lambda>i. i + a) [0..<b]"
    using 1 2 by simp
  then show ?thesis
    by (simp add: train_times_def foldE_append foldE_const_map split: sum.splits)
qed

lemma train_times_ok:
  assumes "wf_net net" and "layerSizes net \<noteq> []" and "length inputs = layerSizes net ! 0"
  shows "\<exists>net'. train_times inputs target lr n net = Inr net' \<and> wf_net net'
              \<and> layerSizes net' = layerSizes net"
  unfolding train_times_def
proof (rule foldE_inv [where I = "\<lambda>n'. wf_net n' \<and> layerSizes n' = layerSizes net"])
  show "wf_net net \<and> layerSizes net = layerSizes net" using assms by simp
next
  fix x s
  assume "wf_net s \<and> layerSizes s = layerSizes net"
  with assms(2,3) show "\<exists>s'. train s inputs target lr = Inr s' \<and> wf_net s' \<and> layerSizes s' = layerSizes net"
    using train_ok [of s inputs target lr] by auto
qed

lemma loss_loop_ok: "\<exists>l. foldE (loss_step target output) xs acc = Inr l"
  by (induction xs arbitrary: acc) (simp_all add: loss_step_def Let_def)

lemma updateVisuals_ok:
  assumes "values' (network s) \<noteq> []"
  shows "\<exists>loss ds. updateVisuals target s = Inr (loss, s\<lparr>displayStats := ds\<rparr>)"
proof -
  obtain l where "foldE (loss_step target (last (values' (network s))))
                    [0..<length (last (values' (network s)))] (Fin 0) = Inr l"
    using loss_loop_ok by blast
  with assms show ?thesis
    by (simp add: updateVisuals_def Let_def) blast
qed

lemma turbo_loop_unfold:
  "turbo_loop inputs target lr s =
     (case train_times inputs target lr 10 (network s) of
        Inl e \<Rightarrow> Inl e
      | Inr net' \<Rightarrow>
          let s1 = s\<lparr>network := net', epochRef := epochRef s + 10\<rparr>;
              s2 = s1\<lparr>epochs := epochRef s1\<rparr>
          in
          (case updateVisuals target s2 of
             Inl e \<Rightarrow> Inl e
           | Inr (loss, s3) \<Rightarrow>
               let h = lossHistory s3 @ [(epochRef s3, loss)];
                   s4 = s3\<lparr>lossHistory := (if 200 < length h then drop (length h - 200) h else h)\<rparr>
               in
               if js_lt loss CONVERGENCE
               then Inr (s4\<lparr>isPlaying := False, isOptimized := True, framePending := False\<rparr>)
               else Inr (s4\<lparr>framePending := True\<rparr>)))"
  by (simp only: turbo_loop_def train_times_def)

text \<open>
  One frame, whatever its loss: it returns, runs ten training steps, adds 10 to both
  counters, keeps the network's shape, and either schedules the next frame or flags the
  network as optimized.
\<close>

lemma turbo_loop_ok:
  assumes wf: "wf_net (network s)" and ne: "layerSizes (network s) \<noteq> []"
    and inp: "length inputs = layerSizes (network s) ! 0"
  shows "\<exists>s'. turbo_loop inputs target lr s = Inr s'
            \<and> epochRef s' = epochRef s + 10 \<and> epochs s' = epochRef s + 10
            \<and> train_times inputs target lr 10 (network s) = Inr (network s')
            \<and> wf_net (network s') \<and> layerSizes (network s') = layerSizes (network s)
            \<and> (framePending s' \<or> isOptimized s')"
proof -
  obtain net' where t: "train_times inputs target lr 10 (network s) = Inr net'"
    and wf': "wf_net net'" and ls: "layerSizes net' = layerSizes (network s)"
    using train_times_ok [OF wf ne inp] by blast
  let ?s2 = "s\<lparr>network := net', epochRef := epochRef s + 10, epochs := epochRef s + 10\<rparr>"
  from wf' ls ne have "values' (network ?s2) \<noteq> []"
    by (auto simp: wf_net_def)
  then obtain loss ds where u: "updateVisuals target ?s2 = Inr (loss, ?s2\<lparr>displayStats := ds\<rparr>)"
    using updateVisuals_ok by blast
  show ?thesis
    unfolding turbo_loop_unfold using t u wf' ls
    by (cases "js_lt loss CONVERGENCE") (simp_all add: Let_def)
qed

text \<open>
  A run of at most \<open>N\<close> frames, by induction on \<open>N\<close>: the counter grows by 10 for every
  frame executed, the converging one included.
\<close>

lemma turbo_frames_count:
  assumes wf: "wf_net (network s)" and ne: "layerSizes (network s) \<noteq> []"
    and inp: "length inputs = layerSizes (network s) ! 0"
  shows "\<exists>s'. turbo_frames inputs target lr N s = Inr s'
            \<and> frames_executed inputs target lr N s \<le> N
            \<and> (0 < N \<longrightarrow> 0 < frames_executed inputs target lr N s)
            \<and> epochRef s' = epochRef s + 10 * frames_executed inputs target lr N s
            \<and> (0 < N \<longrightarrow> epochs s' = epochRef s')
            \<and> train_times inputs target lr (10 * frames_executed inputs target lr N s) (network s)
                = Inr (network s')
            \<and> (0 < N \<and> framePending s' \<longrightarrow> frames_executed inputs target lr N s = N)
            \<and> (frames_executed inputs target lr N s < N \<longrightarrow> \<not> framePending s' \<and> isOptimized s')"
  using assms
proof (induction N arbitrary: s)
  case 0
  then show ?case by (simp add: train_times_def)
next
  case (Suc N)
  obtain s1 where s1: "turbo_loop inputs target lr s = Inr s1"
    and e1: "epochRef s1 = epochRef s + 10" "epochs s1 = epochRef s + 10"
    and t1: "train_times inputs target lr 10 (network s) = Inr (network s1)"
    and wf1: "wf_net (network s1)" "layerSizes (network s1) = layerSizes (network s)"
    and opt: "framePending s1 \<or> isOptimized s1"
    using turbo_loop_ok [OF Suc.prems] by blast
  show ?case
  proof (cases "framePending s1")
    case False
    with s1 e1 t1 opt show ?thesis by simp
  next
    case True
    let ?k = "frames_executed inputs target lr N s1"
    from Suc.IH [of s1] wf1 Suc.prems obtain s' where
      run: "turbo_frames inputs target lr N s1 = Inr s'"
      and k: "?k \<le> N" "0 < N \<longrightarrow> 0 < ?k"
      and e: "epochRef s' = epochRef s1 + 10 * ?k" "0 < N \<longrightarrow> epochs s' = epochRef s'"
      and t: "train_times inputs target lr (10 * ?k) (network s1) = Inr (network s')"
      and full: "0 < N \<and> framePending s' \<longrightarrow> ?k = N"
      and early: "?k < N \<longrightarrow> \<not> framePending s' \<and> isOptimized s'"
      by auto
    have cnt: "frames_executed inputs target lr (Suc N) s = Suc ?k"
      using s1 True by simp
    have tot: "turbo_frames inputs target lr (Suc N) s = Inr s'"
      using s1 True run by simp
    have tt: "train_times inputs target lr (10 * Suc ?k) (network s) = Inr (network s')"
      using train_times_add [of inputs target lr 10 "10 * ?k" "network s"] t1 t by simp
    have N0: "N = 0 \<Longrightarrow> s' = s1" using run by simp
    have ep: "epochs s' = epochRef s'"
      using e e1 N0 by (cases "N = 0") auto
    have fl: "framePending s' \<longrightarrow> ?k = N"
      using full N0 by (cases "N = 0") auto
    show ?thesis
      unfolding cnt tot using k e e1 tt ep fl early
      by (intro exI [of _ s']) auto
  qed
qed

text \<open>
  C9. In turbo mode, on a well-shaped network and an input of the input layer's size,
  every frame returns, runs exactly 10 training steps and adds exactly 10 to the epoch
  counter, which the displayed counter then equals: this holds for every frame, also for
  the one that finds the loss below the convergence threshold. A run of at most \<open>N\<close>
  frames executes \<open>frames_executed\<close> of them, stopping after the first that converges: the
  counter has then grown by 10 times that number and the network is the result of 10 times
  that number of training steps. When the next frame is still scheduled after \<open>N\<close> frames
  (no frame converged), all \<open>N\<close> were executed: the counter has grown by exactly
  \<open>10 * N\<close>, and it is \<open>10 * N\<close> when it started at 0.
\<close>

theorem turbo_epochs:
  assumes "wf_net (network s)" and "layerSizes (network s) \<noteq> []"
    and "length inputs = layerSizes (network s) ! 0"
  shows "(\<exists>s1. turbo_loop inputs target lr s = Inr s1
            \<and> epochRef s1 = epochRef s + 10 \<and> epochs s1 = epochRef s1
            \<and> train_times inputs target lr 10 (network s) = Inr (network s1))
       \<and> (\<exists>s'. turbo_frames inputs target lr N s = Inr s'
            \<and> epochRef s' = epochRef s + 10 * frames_executed inputs target lr N s
            \<and> train_times inputs target lr (10 * frames_executed inputs target lr N s) (network s)
                = Inr (network s')
            \<and> frames_executed inputs target lr N s \<le> N
            \<and> (0 < N \<longrightarrow> 0 < frames_executed inputs target lr N s \<and> epochs s' = epochRef s')
            \<and> (frames_executed inputs target lr N s < N \<longrightarrow> \<not> framePending s' \<and> isOptimized s')
            \<and> (framePending s' \<and> 0 < N \<longrightarrow>
                 epochRef s' = epochRef s + 10 * N
               \<and> (epochRef s = 0 \<longrightarrow> epochRef s' = 10 * N)
               \<and> epochs s' = epochRef s'
               \<and> train_times inputs target lr (10 * N) (network s) = Inr (network s')))"
proof (rule conjI)
  from turbo_loop_ok [OF assms, of target lr]
  show "\<exists>s1. turbo_loop inputs target lr s = Inr s1
            \<and> epochRef s1 = epochRef s + 10 \<and> epochs s1 = epochRef s1
            \<and> train_times inputs target lr 10 (network s) = Inr (network s1)"
    by auto
next
  let ?k = "frames_executed inputs target lr N s"
  from turbo_frames_count [OF assms, of target lr N] obtain s' where
    run: "turbo_frames inputs target lr N s = Inr s'"
    and k: "?k \<le> N" "0 < N \<longrightarrow> 0 < ?k"
    and e: "epochRef s' = epochRef s + 10 * ?k" "0 < N \<longrightarrow> epochs s' = epochRef s'"
    and t: "train_times inputs target lr (10 * ?k) (network s) = Inr (network s')"
    and full: "0 < N \<and> framePending s' \<longrightarrow> ?k = N"
    and early: "?k < N \<longrightarrow> \<not> framePending s' \<and> isOptimized s'"
    by blast
  show "\<exists>s'. turbo_frames inputs target lr N s = Inr s'
            \<and> epochRef s' = epochRef s + 10 * ?k
            \<and> train_times inputs target lr (10 * ?k) (network s) = Inr (network s')
            \<and> ?k \<le> N
            \<and> (0 < N \<longrightarrow> 0 < ?k \<and> epochs s' = epochRef s')
            \<and> (?k < N \<longrightarrow> \<not> framePending s' \<and> isOptimized s')
            \<and> (framePending s' \<and> 0 < N \<longrightarrow>
                 epochRef s' = epochRef s + 10 * N
               \<and> (epochRef s = 0 \<longrightarrow> epochRef s' = 10 * N)
               \<and> epochs s' = epochRef s'
               \<and> train_times inputs target lr (10 * N) (network s) = Inr (network s'))"
    using run k e t full early by (intro exI [of _ s']) auto
qed

text \<open>
  Two runs of the example simulation. Towards target 2 the loss stays above the threshold
  and both of 2 frames run; towards target 1 the network is already at the target, the
  first frame converges, and of 3 frames only that one runs: it still trains 10 times and
  adds 10.
\<close>

lemma bias_net_train:
  assumes "0 < b" "b < 2" "length vs = 2"
  shows "train (bias_net b vs) [Fin 0] [Fin 2] (Fin (1 / 10)) =
         Inr (bias_net (b + (2 - b) / 10) [[Fin 0], [Fin b]])"
  using assms
  by (cases vs; cases "tl vs"; simp add: bias_net_def train_def train_unfold)

lemma bias_net_train_at_target:
  assumes "length vs = 2"
  shows "train (bias_net 1 vs) [Fin 0] [Fin 1] (Fin (1 / 10)) = Inr (bias_net 1 [[Fin 0], [Fin 1]])"
  using assms
  by (cases vs; cases "tl vs"; simp add: bias_net_def train_def train_unfold)

lemma bias_net_fields:
  "layerSizes (bias_net b vs) = [1, 1]"
  "values' (bias_net b vs) = vs"
  "preActivations (bias_net b vs) = vs"
  "weights (bias_net b vs) = [[[Fin 1]]]"
  "weightDeltas (bias_net b vs) = [[[Fin 0]]]"
  "biases (bias_net b vs) = [[Fin b]]"
  by (simp_all add: bias_net_def)

lemma wf_bias_net: "length vs = 2 \<Longrightarrow> wf_net (bias_net b vs)"
  by (simp add: wf_net_def bias_net_def)

lemma bias_net_train_times:
  "train_times [Fin 0] [Fin 2] (Fin (1 / 10)) 10 (bias_net 1 [[Fin 0], [Fin 0]]) =
     Inr (bias_net (16513215599 / 10000000000) [[Fin 0], [Fin (1612579511 / 1000000000)]])"
  by (simp add: train_times_def bias_net_train upt_rec)

lemma bias_net_train_times':
  "train_times [Fin 0] [Fin 2] (Fin (1 / 10)) 10
     (bias_net (16513215599 / 10000000000) [[Fin 0], [Fin (1612579511 / 1000000000)]]) =
   Inr (bias_net (187842334540943071199 / 100000000000000000000)
          [[Fin 0], [Fin (18649148282327007911 / 10000000000000000000)]])"
  by (simp add: train_times_def bias_net_train upt_rec)

lemma bias_net_train_times_at_target:
  "train_times [Fin 0] [Fin 1] (Fin (1 / 10)) 10 (bias_net 1 [[Fin 0], [Fin 0]]) =
     Inr (bias_net 1 [[Fin 0], [Fin 1]])"
  by (simp add: train_times_def bias_net_train_at_target upt_rec)

lemmas frame_unfold =
  turbo_loop_unfold example_sim_def bias_net_fields updateVisuals_def loss_step_def or_zero_def
  num_at_def js_sub_def js_lt_def CONVERGENCE_def Let_def

lemma example_sim_frames:
  "map_sum id (\<lambda>s. (framePending s, epochRef s))
     (turbo_frames [Fin 0] [Fin 2] (Fin (1 / 10)) 2 example_sim) = Inr (True, 20)"
  by (simp add: numeral_2_eq_2 bias_net_train_times bias_net_train_times' frame_unfold)

lemma example_sim_count:
  "frames_executed [Fin 0] [Fin 2] (Fin (1 / 10)) 2 example_sim = 2"
  by (simp add: numeral_2_eq_2 bias_net_train_times bias_net_train_times' frame_unfold)

lemma example_sim_converges:
  "map_sum id (\<lambda>s. (framePending s, isOptimized s, epochRef s))
     (turbo_frames [Fin 0] [Fin 1] (Fin (1 / 10)) 3 example_sim) = Inr (False, True, 10)"
  "frames_executed [Fin 0] [Fin 1] (Fin (1 / 10)) 3 example_sim = 1"
  by (simp_all add: numeral_3_eq_3 bias_net_train_times_at_target frame_unfold)

theorem turbo_epochs_witness:
  "wf_net (network example_sim) \<and> layerSizes (network example_sim) \<noteq> []
   \<and> length [Fin 0] = layerSizes (network example_sim) ! 0
   \<and> (\<exists>s'. turbo_frames [Fin 0] [Fin 2] (Fin (1 / 10)) 2 example_sim = Inr s'
           \<and> framePending s' \<and> epochRef s' = 20 \<and> epochs s' = 20
           \<and> train_times [Fin 0] [Fin 2] (Fin (1 / 10)) 20 (network example_sim)
               = Inr (network s'))
   \<and> (\<exists>s'. turbo_frames [Fin 0] [Fin 1] (Fin (1 / 10)) 3 example_sim = Inr s'
           \<and> \<not> framePending s' \<and> isOptimized s'
           \<and> frames_executed [Fin 0] [Fin 1] (Fin (1 / 10)) 3 example_sim = 1
           \<and> epochRef s' = 10 \<and> epochs s' = 10
           \<and> train_times [Fin 0] [Fin 1] (Fin (1 / 10)) 10 (network example_sim)
               = Inr (network s'))"
proof -
  have h: "wf_net (network example_sim)" "layerSizes (network example_sim) \<noteq> []"
    "length [Fin 0] = layerSizes (network example_sim) ! 0"
    by (simp_all add: example_sim_def wf_bias_net bias_net_fields)
  have e0: "epochRef example_sim = 0" by (simp add: example_sim_def)
  have n: "(10::nat) * 2 = 20" "(10::nat) * 1 = 10" "(0::nat) + 20 = 20" "(0::nat) + 10 = 10"
    by simp_all
  note a = turbo_epochs [OF h, of "[Fin 2]" "Fin (1 / 10)" 2, THEN conjunct2]
  note b = turbo_epochs [OF h, of "[Fin 1]" "Fin (1 / 10)" 3, THEN conjunct2]
  from a have A: "\<exists>s'. turbo_frames [Fin 0] [Fin 2] (Fin (1 / 10)) 2 example_sim = Inr s'
           \<and> framePending s' \<and> epochRef s' = 20 \<and> epochs s' = 20
           \<and> train_times [Fin 0] [Fin 2] (Fin (1 / 10)) 20 (network example_sim)
               = Inr (network s')"
  proof (elim exE conjE)
    fix s'
    assume run: "turbo_frames [Fin 0] [Fin 2] (Fin (1 / 10)) 2 example_sim = Inr s'"
      and e: "epochRef s' = epochRef example_sim
                + 10 * frames_executed [Fin 0] [Fin 2] (Fin (1 / 10)) 2 example_sim"
      and t: "train_times [Fin 0] [Fin 2] (Fin (1 / 10))
                (10 * frames_executed [Fin 0] [Fin 2] (Fin (1 / 10)) 2 example_sim)
                (network example_sim) = Inr (network s')"
      and ep: "0 < (2::nat) \<longrightarrow> 0 < frames_executed [Fin 0] [Fin 2] (Fin (1 / 10)) 2 example_sim
                 \<and> epochs s' = epochRef s'"
    from example_sim_frames run have fp: "framePending s'" by simp
    from e have e': "epochRef s' = 20" by (simp only: example_sim_count e0 n)
    from ep e' have ep': "epochs s' = 20" by simp
    from t have "train_times [Fin 0] [Fin 2] (Fin (1 / 10)) 20 (network example_sim)
        = Inr (network s')"
      by (simp only: example_sim_count n)
    with run fp e' ep' show ?thesis by (intro exI [of _ s'] conjI)
  qed
  from b have B: "\<exists>s'. turbo_frames [Fin 0] [Fin 1] (Fin (1 / 10)) 3 example_sim = Inr s'
           \<and> \<not> framePending s' \<and> isOptimized s'
           \<and> frames_executed [Fin 0] [Fin 1] (Fin (1 / 10)) 3 example_sim = 1
           \<and> epochRef s' = 10 \<and> epochs s' = 10
           \<and> train_times [Fin 0] [Fin 1] (Fin (1 / 10)) 10 (network example_sim)
               = Inr (network s')"
  proof (elim exE conjE)
    fix s'
    assume run: "turbo_frames [Fin 0] [Fin 1] (Fin (1 / 10)) 3 example_sim = Inr s'"
      and e: "epochRef s' = epochRef example_sim
                + 10 * frames_executed [Fin 0] [Fin 1] (Fin (1 / 10)) 3 example_sim"
      and t: "train_times [Fin 0] [Fin 1] (Fin (1 / 10))
                (10 * frames_executed [Fin 0] [Fin 1] (Fin (1 / 10)) 3 example_sim)
                (network example_sim) = Inr (network s')"
      and ep: "0 < (3::nat) \<longrightarrow> 0 < frames_executed [Fin 0] [Fin 1] (Fin (1 / 10)) 3 example_sim
                 \<and> epochs s' = epochRef s'"
      and early: "frames_executed [Fin 0] [Fin 1] (Fin (1 / 10)) 3 example_sim < 3
                 \<longrightarrow> \<not> framePending s' \<and> isOptimized s'"
    note c = example_sim_converges(2)
    from e have e': "epochRef s' = 10" by (simp only: c e0 n)
    from ep e' have ep': "epochs s' = 10" by simp
    from t have t': "train_times [Fin 0] [Fin 1] (Fin (1 / 10)) 10 (network example_sim)
        = Inr (network s')"
      by (simp only: c n)
    from early [unfolded c] have o: "\<not> framePending s'" "isOptimized s'" by simp_all
    from run o c e' ep' t' show ?thesis by (intro exI [of _ s'] conjI)
  qed
  from h A B show ?thesis by (intro conjI)
qed

section \<open>Projection\<close>














section \<open>Scene builder\<close>

lemma foldE_total:
  assumes "\<And>x s. x \<in> set xs \<Longrightarrow> \<exists>s'. f x s = Inr s'"
  shows "\<exists>s'. foldE f xs s = Inr s'"
  using foldE_inv [where I = "\<lambda>s. True" and f = f and xs = xs and s = s] assms by simp

lemma project3D_ok: "l < length dims \<Longrightarrow> \<exists>p. project3D dims cam l r c = Inr p"
  by (simp add: project3D_def Let_def split: prod.splits)

lemma node_step_ok: "l < length dims \<Longrightarrow> \<exists>items'. node_step dims cam stats l r c items = Inr items'"
  using project3D_ok [of l dims cam r c] by (auto simp: node_step_def Let_def)

lemma link_step_ok:
  "l + 1 < length dims \<Longrightarrow> \<exists>items'. link_step dims cam stats l lw ff fp r2 c2 items = Inr items'"
  using project3D_ok [of "l + 1" dims cam r2 c2] by (auto simp: link_step_def Let_def)

lemma from_step_ok:
  assumes "l + 1 < length dims"
  shows "\<exists>items'. from_step dims cam stats l lw r1 c1 items = Inr items'"
proof -
  from assms obtain p where p: "project3D dims cam l r1 c1 = Inr p"
    using project3D_ok [of l dims cam r1 c1] by auto
  have "\<exists>s'. foldE (\<lambda>r2. foldE (link_step dims cam stats l lw (r1 * cols (dims ! l) + c1) p r2)
                          [0..<cols (dims ! (l + 1))])
            [0..<rows (dims ! (l + 1))] items = Inr s'"
    by (intro foldE_total link_step_ok assms)
  with p show ?thesis by (simp add: from_step_def Let_def)
qed

lemma links_step_ok: "\<exists>items'. links_step dims cam stats l items = Inr items'"
proof (cases "l + 1 < length dims")
  case True
  have "\<exists>s'. foldE (\<lambda>r1. foldE (from_step dims cam stats l (stats_weights stats ! l) r1)
                         [0..<cols (dims ! l)]) [0..<rows (dims ! l)] items = Inr s'"
    by (intro foldE_total from_step_ok True)
  with True show ?thesis by (simp add: links_step_def Let_def)
next
  case False
  then show ?thesis by (simp add: links_step_def)
qed

lemma set_insert_by_depth: "set (insert_by_depth a bs) = insert a (set bs)"
  by (induction bs) auto

lemma sorted_insert_by_depth:
  "sorted (map item_depth bs) \<Longrightarrow> sorted (map item_depth (insert_by_depth a bs))"
  by (induction bs) (auto simp: set_insert_by_depth)

lemma sorted_foldl_insert:
  "sorted (map item_depth acc) \<Longrightarrow>
   sorted (map item_depth (foldl (\<lambda>sorted_items a. insert_by_depth a sorted_items) acc items))"
  by (induction items arbitrary: acc) (simp_all add: sorted_insert_by_depth)

lemma sorted_sort_by_depth: "sorted (map item_depth (sort_by_depth items))"
  unfolding sort_by_depth_def by (rule sorted_foldl_insert) simp

text \<open>
  C7. The scene builder always returns a list, and the list is sorted by depth: every
  item's depth is at most the depth of the item after it.
\<close>

theorem renderItems_sorted:
  "\<exists>items. renderItems layerDims cam stats = Inr items
         \<and> sorted (map item_depth items)
         \<and> (\<forall>i. Suc i < length items \<longrightarrow> item_depth (items ! i) \<le> item_depth (items ! Suc i))"
proof -
  have sorted_consec: "\<forall>i. Suc i < length xs \<longrightarrow> item_depth (xs ! i) \<le> item_depth (xs ! Suc i)"
    if "sorted (map item_depth xs)" for xs
    using that by (auto simp: sorted_iff_nth_Suc)
  show ?thesis
  proof (cases "stats_values stats = []")
    case True
    then show ?thesis by (simp add: renderItems_def)
  next
    case False
    have "\<exists>s'. foldE (\<lambda>lIdx. foldE (\<lambda>r. foldE (node_step layerDims cam stats lIdx r)
                                           [0..<cols (layerDims ! lIdx)])
                            [0..<rows (layerDims ! lIdx)])
               [0..<length layerDims] [] = Inr s'"
    proof (rule foldE_total)
      fix l s
      assume "l \<in> set [0..<length layerDims]"
      then have l: "l < length layerDims" by simp
      show "\<exists>s'. foldE (\<lambda>r. foldE (node_step layerDims cam stats l r) [0..<cols (layerDims ! l)])
                   [0..<rows (layerDims ! l)] s = Inr s'"
        by (intro foldE_total node_step_ok l)
    qed
    then obtain nodes where nodes:
      "foldE (\<lambda>lIdx. foldE (\<lambda>r. foldE (node_step layerDims cam stats lIdx r)
                                           [0..<cols (layerDims ! lIdx)])
                            [0..<rows (layerDims ! lIdx)])
               [0..<length layerDims] [] = Inr nodes" ..
    obtain items where items:
      "foldE (links_step layerDims cam stats) [0..<length (stats_weights stats)] nodes = Inr items"
      using foldE_total [of _ "links_step layerDims cam stats"] links_step_ok by blast
    have "renderItems layerDims cam stats = Inr (sort_by_depth items)"
      using False nodes items by (simp add: renderItems_def)
    then show ?thesis
      using sorted_sort_by_depth [of items] sorted_consec by blast
  qed
qed

lemma example_render_length:
  "map_sum id length (renderItems two_layers side_camera example_stats) = Inr 5"
  by (simp add: renderItems_def node_step_def links_step_def from_step_def link_step_def
      project3D_def rotate3D_def position3D_def two_layers_def side_camera_def example_stats_def
      sort_by_depth_def opt_num2_def opt_num3_def or_zero_def num_at_def js_sub_def Let_def upt_rec)

theorem renderItems_sorted_witness:
  "\<exists>items. renderItems two_layers side_camera example_stats = Inr items
         \<and> sorted (map item_depth items)
         \<and> Suc 0 < length items
         \<and> item_depth (items ! 0) \<le> item_depth (items ! Suc 0)"
proof -
  from renderItems_sorted [of two_layers side_camera example_stats] obtain items where
    all: "renderItems two_layers side_camera example_stats = Inr items
         \<and> sorted (map item_depth items)
         \<and> (\<forall>i. Suc i < length items \<longrightarrow> item_depth (items ! i) \<le> item_depth (items ! Suc i))" ..
  with example_render_length have "length items = 5" by simp
  with all show ?thesis
    by (intro exI [of _ items]) simp
qed

end
